theory Spec2Isabelle
  imports Main "HOL-Library.AList" "HOL-Library.Sublist"
begin

section \<open>Session manager (server/src/services/sessionManager.ts)\<close>

subsection \<open>Data model\<close>

text \<open>
  The status field of \<^verbatim>\<open>FlutterSession\<close>:
  \<^verbatim>\<open>'initializing' | 'ready' | 'error' | 'terminated'\<close>.
\<close>

datatype SessionStatus = Initializing | Ready | Error | Terminated

text \<open>
  A child process as the manager sees it through Node's \<^verbatim>\<open>ChildProcess\<close> object.
  \<open>exited\<close>: the operating-system process is gone (it ended, or it never started);
  \<open>killed\<close>: Node's \<^verbatim>\<open>subprocess.killed\<close>, which Node sets when \<^verbatim>\<open>kill()\<close> has
  delivered a signal (it does not say that the process has ended);
  \<open>signals\<close>: the signals delivered to the process so far;
  \<open>stdin\<close>: what has been written to its standard input.
\<close>

datatype signal = SIGTERM | SIGKILL

record ChildProcess =
  exited :: bool
  killed :: bool
  signals :: "signal list"
  stdin :: "string list"

text \<open>
  \<^verbatim>\<open>interface FlutterSession\<close>. The field \<^verbatim>\<open>id\<close> is \<open>sessionId\<close> here. A process
  object is a reference: \<open>flutterProcess\<close> holds its index in the table \<open>procs\<close> of the
  manager state below. Dates are milliseconds since the epoch (\<^verbatim>\<open>Date.getTime()\<close>).
\<close>

record FlutterSession =
  sessionId :: string
  userId :: "string option"
  projectPath :: string
  port :: nat
  flutterProcess :: "nat option"
  createdAt :: int
  lastActive :: int
  status :: SessionStatus
  previewUrl :: string

text \<open>
  The state the class \<^verbatim>\<open>SessionManager\<close> works on.
  \<open>sessions\<close> is the JavaScript \<^verbatim>\<open>Map\<close> from session id to session, as an
  association list in insertion order: \<^verbatim>\<open>set\<close> is \<^const>\<open>AList.update\<close> (in place for
  a key that is there, at the end otherwise), \<^verbatim>\<open>delete\<close> is \<^const>\<open>AList.delete\<close>,
  \<^verbatim>\<open>get\<close> is \<^const>\<open>map_of\<close>, \<^verbatim>\<open>size\<close> is \<^const>\<open>length\<close>.
  \<open>usedPorts\<close> is the \<^verbatim>\<open>Set\<close> of ports handed out.
  \<open>files\<close> is the file system, from path to content (directories are implicit).
  \<open>procs\<close> is the table of the child processes spawned so far.
  \<open>graceTimers\<close> lists the processes for which the 5000 ms timer of
  \<^verbatim>\<open>terminateSession\<close> is pending.
  \<open>suspended\<close> lists the calls of \<^verbatim>\<open>terminateSession\<close> that have reached
  \<^verbatim>\<open>await fs.remove(session.projectPath)\<close> and have not resumed yet, each with the id
  it was called with and the session object it has read from the map (port and project
  path of a session never change, so the object is the one read).
\<close>

record SessionManager =
  sessions :: "(string \<times> FlutterSession) list"
  usedPorts :: "nat set"
  files :: "string \<rightharpoonup> string"
  procs :: "ChildProcess list"
  graceTimers :: "nat list"
  suspended :: "(string \<times> FlutterSession) list"

definition basePort :: nat where
  "basePort = 8080"

definition maxSessions :: nat where
  "maxSessions = 50"

definition projectsDir :: string where
  "projectsDir = ''temp/sessions''"

definition initialManager :: SessionManager where
  "initialManager =
     \<lparr>sessions = [], usedPorts = {}, files = Map.empty, procs = [], graceTimers = [],
      suspended = []\<rparr>"

text \<open>
  The errors the manager throws and the route layer answers with. In the source they
  are \<^verbatim>\<open>Error\<close> objects told apart by their message:
  \<open>CapacityExceeded\<close> is \<^verbatim>\<open>'Maximum number of sessions reached'\<close>,
  \<open>PortsExhausted\<close> is \<^verbatim>\<open>'No available ports for Flutter session'\<close>,
  \<open>NotFound\<close> is \<^verbatim>\<open>'Session ... not found'\<close> (status 404 in the route),
  \<open>NotReady\<close> is \<^verbatim>\<open>'Session not ready'\<close>, an answer of one route handler,
  \<open>StartTimeout\<close> is \<^verbatim>\<open>'Flutter server timeout for session ...'\<close>,
  \<open>StartProcessError\<close> is the error of the child's \<^verbatim>\<open>'error'\<close> event,
  \<open>NoActiveProcess\<close> is \<^verbatim>\<open>'Session ... not found or no active Flutter process'\<close>;
  the others are the failures of the external commands and calls.
\<close>

datatype error =
    CapacityExceeded
  | PortsExhausted
  | NotFound
  | NotReady
  | InvalidRequest
  | StartTimeout
  | StartProcessError
  | FlutterCreateFailed
  | ReadFailed
  | GenerationFailed
  | PubGetFailed
  | NoActiveProcess

subsection \<open>What the outside world answers\<close>

text \<open>
  \<^verbatim>\<open>interface CodeGenerationResponse\<close> of the AI service; a file is a pair of its
  path and its content.
\<close>

record CodeGenerationResponse =
  code :: string
  explanation :: "string option"
  dependencies :: "string list option"
  genFiles :: "(string \<times> string) list option"

text \<open>
  How the spawned development server behaves during \<^verbatim>\<open>startFlutterServer\<close>:
  \<open>MarkerSeen\<close>: it printed the line \<^verbatim>\<open>is being served at http://localhost:<port>\<close>;
  \<open>NoMarker e\<close>: the 120000 ms timer ran out first, and \<open>e\<close> says whether the
  process had ended by itself by then; \<open>SpawnError\<close>: the \<^verbatim>\<open>'error'\<close> event came
  first (the process could not be started).
\<close>

datatype StartOutcome = MarkerSeen | NoMarker bool | SpawnError

text \<open>
  The answers of the environment during one call of the manager:
  \<open>uuid\<close>: the result of \<^verbatim>\<open>uuidv4()\<close>; \<open>now\<close>: the result of \<^verbatim>\<open>new Date()\<close>;
  \<open>flutterCreate\<close>: the files \<^verbatim>\<open>flutter create\<close> writes below the project path, or
  \<open>None\<close> when the command fails; \<open>generated\<close>: the answer of
  \<^verbatim>\<open>aiService.generateFlutterCode\<close>, or \<open>None\<close> when it throws; \<open>pubGet\<close>: whether
  \<^verbatim>\<open>flutter pub get\<close> succeeds; \<open>server\<close>: the behaviour of the spawned server;
  \<open>removeOk\<close>: whether \<^verbatim>\<open>fs.remove\<close> succeeds.
\<close>

record Env =
  uuid :: string
  now :: int
  flutterCreate :: "(string \<times> string) list option"
  generated :: "CodeGenerationResponse option"
  pubGet :: bool
  server :: StartOutcome
  removeOk :: bool

subsection \<open>Paths, files and strings\<close>

text \<open>
  \<^verbatim>\<open>path.join\<close> of Node, on a POSIX system: the arguments that are not empty are
  joined with a slash and the result is normalised. In \<^verbatim>\<open>normalize\<close> the path is cut
  at its slashes; empty segments and \<^verbatim>\<open>.\<close> are dropped; \<^verbatim>\<open>..\<close> takes back the
  segment before it, unless there is none or it is \<^verbatim>\<open>..\<close> itself, in which case it
  stays in a relative path and is dropped in an absolute one; a slash at the end is kept.
  \<open>normalizeSegments\<close> holds the segments kept so far in reverse order.
\<close>

fun splitSlash :: "string \<Rightarrow> string list" where
  "splitSlash [] = [[]]"
| "splitSlash (c # s) =
     (if c = CHR ''/'' then [] # splitSlash s
      else (case splitSlash s of
              [] \<Rightarrow> [[c]]
            | seg # segs \<Rightarrow> (c # seg) # segs))"

fun joinSlash :: "string list \<Rightarrow> string" where
  "joinSlash [] = []"
| "joinSlash [seg] = seg"
| "joinSlash (seg # next # segs) = seg @ ''/'' @ joinSlash (next # segs)"

fun normalizeSegments :: "bool \<Rightarrow> string list \<Rightarrow> string list \<Rightarrow> string list" where
  "normalizeSegments allowAboveRoot [] res = rev res"
| "normalizeSegments allowAboveRoot (seg # segs) res =
     (if seg = [] \<or> seg = ''.'' then normalizeSegments allowAboveRoot segs res
      else if seg = ''..'' then
        (if res \<noteq> [] \<and> hd res \<noteq> ''..'' then normalizeSegments allowAboveRoot segs (tl res)
         else if allowAboveRoot then normalizeSegments allowAboveRoot segs (''..'' # res)
         else normalizeSegments allowAboveRoot segs res)
      else normalizeSegments allowAboveRoot segs (seg # res))"

definition normalizePath :: "string \<Rightarrow> string" where
  "normalizePath p =
     (if p = [] then ''.''
      else let isAbsolute = (hd p = CHR ''/'');
               trailingSeparator = (last p = CHR ''/'');
               body = joinSlash (normalizeSegments (\<not> isAbsolute) (splitSlash p) [])
           in if body = []
              then (if isAbsolute then ''/'' else if trailingSeparator then ''./'' else ''.'')
              else (if isAbsolute then ''/'' else []) @ body @ (if trailingSeparator then ''/'' else []))"

definition pathJoin :: "string list \<Rightarrow> string" where
  "pathJoin args =
     (let joined = joinSlash (filter (\<lambda>arg. arg \<noteq> []) args)
      in if joined = [] then ''.'' else normalizePath joined)"

definition mainDartPathOf :: "string \<Rightarrow> string" where
  "mainDartPathOf projPath = pathJoin [projPath, ''lib'', ''main.dart'']"

definition writeFile :: "string \<Rightarrow> string \<Rightarrow> (string \<rightharpoonup> string) \<Rightarrow> (string \<rightharpoonup> string)" where
  "writeFile p c fs = fs(p \<mapsto> c)"

fun writeFiles :: "string \<Rightarrow> (string \<times> string) list \<Rightarrow> (string \<rightharpoonup> string) \<Rightarrow> (string \<rightharpoonup> string)" where
  "writeFiles dir [] fs = fs"
| "writeFiles dir ((p, c) # rest) fs = writeFiles dir rest (writeFile (pathJoin [dir, p]) c fs)"

text \<open>\<^verbatim>\<open>fs.remove(dir)\<close>: the directory and everything below it.\<close>

definition removeTree :: "string \<Rightarrow> (string \<rightharpoonup> string) \<Rightarrow> (string \<rightharpoonup> string)" where
  "removeTree dir fs = (\<lambda>p. if p = dir \<or> prefix (dir @ ''/'') p then None else fs p)"

text \<open>\<^verbatim>\<open>String.prototype.includes\<close> and \<^verbatim>\<open>replace\<close> with a string pattern (first match).\<close>

fun strIncludes :: "string \<Rightarrow> string \<Rightarrow> bool" where
  "strIncludes [] d = (d = [])"
| "strIncludes (c # s) d = (prefix d (c # s) \<or> strIncludes s d)"

fun replaceFirst :: "string \<Rightarrow> string \<Rightarrow> string \<Rightarrow> string" where
  "replaceFirst pat rep [] = (if pat = [] then rep else [])"
| "replaceFirst pat rep (c # s) =
     (if prefix pat (c # s) then rep @ drop (length pat) (c # s)
      else c # replaceFirst pat rep s)"

text \<open>Decimal digits of a number, as \<^verbatim>\<open>${port}\<close> in a template string prints them.\<close>

definition digitChar :: "nat \<Rightarrow> char" where
  "digitChar d = ''0123456789'' ! d"

function showNat :: "nat \<Rightarrow> string" where
  "showNat n = (if n < 10 then [digitChar n] else showNat (n div 10) @ [digitChar (n mod 10)])"
  by pat_completeness auto
termination
  by (relation "measure (\<lambda>n. n)") auto

declare showNat.simps [simp del]

subsection \<open>Port allocation\<close>

text \<open>
  \<^verbatim>\<open>getNextAvailablePort\<close>: the loop
  \<^verbatim>\<open>for (let port = basePort; port < basePort + 1000; port++)\<close> returns the first port
  that \<^verbatim>\<open>usedPorts\<close> does not hold and throws when there is none.
\<close>

function scanPorts :: "nat set \<Rightarrow> nat \<Rightarrow> nat \<Rightarrow> nat option" where
  "scanPorts used p limit =
     (if p < limit then (if p \<notin> used then Some p else scanPorts used (p + 1) limit)
      else None)"
  by pat_completeness auto
termination
  by (relation "measure (\<lambda>(used, p, limit). limit - p)") auto

declare scanPorts.simps [simp del]

definition getNextAvailablePort :: "SessionManager \<Rightarrow> error + nat" where
  "getNextAvailablePort m =
     (case scanPorts (usedPorts m) basePort (basePort + 1000) of
        None \<Rightarrow> Inl PortsExhausted
      | Some p \<Rightarrow> Inr p)"

subsection \<open>Child processes\<close>

text \<open>
  \<^verbatim>\<open>spawn\<close> makes a new process object; the new reference is the next index of the
  table.
\<close>

definition newProcess :: ChildProcess where
  "newProcess = \<lparr>exited = False, killed = False, signals = [], stdin = []\<rparr>"

definition spawn :: "SessionManager \<Rightarrow> nat \<times> SessionManager" where
  "spawn m = (length (procs m), m\<lparr>procs := procs m @ [newProcess]\<rparr>)"

text \<open>
  Node's \<^verbatim>\<open>subprocess.kill(signal)\<close>: a process that is still there receives the
  signal and \<^verbatim>\<open>killed\<close> becomes true; for a process that is gone nothing is sent and
  \<^verbatim>\<open>killed\<close> is left as it is.
\<close>

definition kill :: "signal \<Rightarrow> ChildProcess \<Rightarrow> ChildProcess" where
  "kill sig p = (if exited p then p else p\<lparr>killed := True, signals := signals p @ [sig]\<rparr>)"

definition updProc :: "nat \<Rightarrow> (ChildProcess \<Rightarrow> ChildProcess) \<Rightarrow> SessionManager \<Rightarrow> SessionManager" where
  "updProc h f m = (if h < length (procs m) then m\<lparr>procs := (procs m)[h := f (procs m ! h)]\<rparr> else m)"

text \<open>
  A mutation of a session object, seen through the map that holds it: an object that is
  no longer in the map is not observable through the manager.
\<close>

definition updSession :: "string \<Rightarrow> (FlutterSession \<Rightarrow> FlutterSession) \<Rightarrow> SessionManager \<Rightarrow> SessionManager" where
  "updSession sid f m = m\<lparr>sessions := AList.map_entry sid f (sessions m)\<rparr>"

text \<open>
  The handler \<^verbatim>\<open>flutterProcess.on('exit', ...)\<close> of \<^verbatim>\<open>startFlutterServer\<close>, run when
  process \<open>h\<close> ends: the session that started it gets the status \<^verbatim>\<open>'terminated'\<close>.
\<close>

definition processExit :: "nat \<Rightarrow> SessionManager \<Rightarrow> SessionManager" where
  "processExit h m =
     (updProc h (\<lambda>p. p\<lparr>exited := True\<rparr>) m)
       \<lparr>sessions := map (\<lambda>(k, s). (k, if flutterProcess s = Some h then s\<lparr>status := Terminated\<rparr> else s))
                       (sessions m)\<rparr>"

subsection \<open>terminateSession and its timer\<close>

text \<open>
  \<^verbatim>\<open>terminateSession\<close> has one \<^verbatim>\<open>await\<close>, at the removal of the project
  directory, where the call gives way to whatever else is ready to run. Up to there
  (\<open>terminateSessionBegin\<close>): nothing for an id that is not in the map, and the call
  ends; otherwise SIGTERM to the session's process and a 5000 ms timer for it, and the
  call goes on with the session object it has read.
\<close>

definition terminateSessionBegin :: "string \<Rightarrow> SessionManager \<Rightarrow> FlutterSession option \<times> SessionManager" where
  "terminateSessionBegin sid m =
     (case map_of (sessions m) sid of
        None \<Rightarrow> (None, m)
      | Some session \<Rightarrow>
          (Some session,
           case flutterProcess session of
             None \<Rightarrow> m
           | Some h \<Rightarrow> (updProc h (kill SIGTERM) m)\<lparr>graceTimers := graceTimers m @ [h]\<rparr>))"

text \<open>
  From there on (\<open>terminateSessionEnd\<close>), with the session object read before the
  \<^verbatim>\<open>await\<close>: the project directory is removed (a failure is caught and logged),
  \<^verbatim>\<open>session.port\<close> is deleted from \<^verbatim>\<open>usedPorts\<close>, the id is deleted from the
  map. Neither statement looks at the map again before it deletes.
\<close>

definition terminateSessionEnd :: "string \<Rightarrow> FlutterSession \<Rightarrow> bool \<Rightarrow> SessionManager \<Rightarrow> SessionManager" where
  "terminateSessionEnd sid session rmOk m =
     (let m2 = (if rmOk then m\<lparr>files := removeTree (projectPath session) (files m)\<rparr> else m)
      in m2\<lparr>usedPorts := usedPorts m2 - {port session},
            sessions := AList.delete sid (sessions m2)\<rparr>)"

text \<open>A call of \<^verbatim>\<open>terminateSession\<close> during whose \<^verbatim>\<open>await\<close> nothing else runs.\<close>

definition terminateSession :: "string \<Rightarrow> bool \<Rightarrow> SessionManager \<Rightarrow> SessionManager" where
  "terminateSession sid rmOk m =
     (case terminateSessionBegin sid m of
        (None, m1) \<Rightarrow> m1
      | (Some session, m1) \<Rightarrow> terminateSessionEnd sid session rmOk m1)"

text \<open>
  The callback of that timer, for process \<open>h\<close>:
  \<^verbatim>\<open>if (session.flutterProcess && !session.flutterProcess.killed) kill('SIGKILL')\<close>.
\<close>

definition graceTimeout :: "nat \<Rightarrow> SessionManager \<Rightarrow> SessionManager" where
  "graceTimeout h m =
     (if h < length (procs m) \<and> \<not> killed (procs m ! h) then updProc h (kill SIGKILL) m else m)"

definition runGraceTimer :: "SessionManager \<Rightarrow> SessionManager" where
  "runGraceTimer m =
     (case graceTimers m of
        [] \<Rightarrow> m
      | h # rest \<Rightarrow> graceTimeout h (m\<lparr>graceTimers := rest\<rparr>))"

subsection \<open>createSession\<close>

text \<open>
  \<^verbatim>\<open>updatePubspec\<close>: for each dependency that the table knows and the manifest does
  not mention yet, a line after the first \<^verbatim>\<open>dependencies:\<close>. Reading a manifest that
  is not there throws. The table is an object literal, so \<^verbatim>\<open>dependencyMap[dep]\<close> also
  finds the properties every object inherits from \<^verbatim>\<open>Object.prototype\<close>, all of them
  truthy; \<open>objectPrototype\<close> lists them with the text that the template string makes of
  their values.
\<close>

definition dependencyMap :: "(string \<times> string) list" where
  "dependencyMap =
     [(''http'', ''^1.1.0''), (''provider'', ''^6.1.1''), (''shared_preferences'', ''^2.2.2''),
      (''firebase_core'', ''^2.24.0''), (''firebase_auth'', ''^4.15.0''),
      (''cloud_firestore'', ''^4.13.3'')]"

definition nativeFunction :: "string \<Rightarrow> string" where
  "nativeFunction name = ''function '' @ name @ ''() { [native code] }''"

definition objectPrototype :: "(string \<times> string) list" where
  "objectPrototype =
     [(''constructor'', nativeFunction ''Object''),
      (''__defineGetter__'', nativeFunction ''__defineGetter__''),
      (''__defineSetter__'', nativeFunction ''__defineSetter__''),
      (''hasOwnProperty'', nativeFunction ''hasOwnProperty''),
      (''__lookupGetter__'', nativeFunction ''__lookupGetter__''),
      (''__lookupSetter__'', nativeFunction ''__lookupSetter__''),
      (''isPrototypeOf'', nativeFunction ''isPrototypeOf''),
      (''propertyIsEnumerable'', nativeFunction ''propertyIsEnumerable''),
      (''toString'', nativeFunction ''toString''),
      (''valueOf'', nativeFunction ''valueOf''),
      (''__proto__'', ''[object Object]''),
      (''toLocaleString'', nativeFunction ''toLocaleString'')]"

definition lookupDependency :: "string \<Rightarrow> string option" where
  "lookupDependency dep =
     (case map_of dependencyMap dep of
        Some version \<Rightarrow> Some version
      | None \<Rightarrow> map_of objectPrototype dep)"

fun injectDependencies :: "string list \<Rightarrow> string \<Rightarrow> string" where
  "injectDependencies [] content = content"
| "injectDependencies (dep # deps) content =
     injectDependencies deps
       (case lookupDependency dep of
          Some version \<Rightarrow>
            if \<not> strIncludes content dep
            then replaceFirst ''dependencies:''
                   (''dependencies:'' @ [CHR 0x0A] @ ''  '' @ dep @ '': '' @ version) content
            else content
        | None \<Rightarrow> content)"

definition updatePubspec :: "string \<Rightarrow> string list \<Rightarrow> (string \<rightharpoonup> string) \<Rightarrow> error + (string \<rightharpoonup> string)" where
  "updatePubspec projPath deps fs =
     (let pubspecPath = pathJoin [projPath, ''pubspec.yaml'']
      in case fs pubspecPath of
           None \<Rightarrow> Inl ReadFailed
         | Some content \<Rightarrow> Inr (writeFile pubspecPath (injectDependencies deps content) fs))"

text \<open>
  The step shared by \<^verbatim>\<open>initializeFlutterProject\<close> and \<^verbatim>\<open>updateSessionCode\<close>:
  \<^verbatim>\<open>if (result.dependencies && result.dependencies.length > 0)\<close> update the manifest and
  run \<^verbatim>\<open>flutter pub get\<close>.
\<close>

definition installDependencies :: "string \<Rightarrow> CodeGenerationResponse \<Rightarrow> Env \<Rightarrow> (string \<rightharpoonup> string) \<Rightarrow> error option \<times> (string \<rightharpoonup> string)" where
  "installDependencies projPath res env fs =
     (case dependencies res of
        None \<Rightarrow> (None, fs)
      | Some deps \<Rightarrow>
          if deps = [] then (None, fs)
          else (case updatePubspec projPath deps fs of
                  Inl e \<Rightarrow> (Some e, fs)
                | Inr fs' \<Rightarrow> if pubGet env then (None, fs') else (Some PubGetFailed, fs')))"

text \<open>
  \<^verbatim>\<open>initializeFlutterProject\<close>: \<^verbatim>\<open>flutter create\<close> (its failure is an error of
  the whole call); then, for a prompt that is given and not empty, the generated code
  goes to \<^verbatim>\<open>lib/main.dart\<close> and the dependencies are installed, any failure of this
  second part being caught and logged only.
\<close>

definition initializeFlutterProject :: "FlutterSession \<Rightarrow> string option \<Rightarrow> Env \<Rightarrow> SessionManager \<Rightarrow> error option \<times> SessionManager" where
  "initializeFlutterProject session initialPrompt env m =
     (case flutterCreate env of
        None \<Rightarrow> (Some FlutterCreateFailed, m)
      | Some created \<Rightarrow>
          let fs1 = writeFiles (projectPath session) created (files m)
          in if initialPrompt \<noteq> None \<and> initialPrompt \<noteq> Some []
             then (case generated env of
                     None \<Rightarrow> (None, m\<lparr>files := fs1\<rparr>)
                   | Some res \<Rightarrow>
                       let fs2 = writeFile (mainDartPathOf (projectPath session)) (code res) fs1
                       in (None, m\<lparr>files := snd (installDependencies (projectPath session) res env fs2)\<rparr>))
             else (None, m\<lparr>files := fs1\<rparr>))"

text \<open>
  \<^verbatim>\<open>startFlutterServer\<close>: the process is spawned and stored in the session; the promise
  resolves when the marker is seen and rejects on the 120000 ms timer or on the
  \<^verbatim>\<open>'error'\<close> event. A process that ends without the marker runs the exit handler
  and the promise still waits for the timer.
\<close>

definition startFlutterServer :: "string \<Rightarrow> Env \<Rightarrow> SessionManager \<Rightarrow> error option \<times> SessionManager" where
  "startFlutterServer sid env m =
     (let (h, m1) = spawn m;
          m2 = updSession sid (\<lambda>s. s\<lparr>flutterProcess := Some h\<rparr>) m1
      in case server env of
           MarkerSeen \<Rightarrow> (None, m2)
         | NoMarker e \<Rightarrow> (Some StartTimeout, if e then processExit h m2 else m2)
         | SpawnError \<Rightarrow> (Some StartProcessError, updProc h (\<lambda>p. p\<lparr>exited := True\<rparr>) m2))"

text \<open>
  \<^verbatim>\<open>createSession\<close>. The record and the port are stored before the first
  \<^verbatim>\<open>await\<close>; the \<^verbatim>\<open>catch\<close> block sets the status \<^verbatim>\<open>'error'\<close>, calls
  \<^verbatim>\<open>terminateSession\<close>, a whole call here, and throws the error again.
\<close>

definition newSession :: "string option \<Rightarrow> Env \<Rightarrow> nat \<Rightarrow> FlutterSession" where
  "newSession uid env prt =
     \<lparr>sessionId = uuid env, userId = uid,
      projectPath = pathJoin [projectsDir, uuid env], port = prt,
      flutterProcess = None, createdAt = now env, lastActive = now env,
      status = Initializing,
      previewUrl = ''http://localhost:'' @ showNat prt\<rparr>"

definition createSessionCatch :: "string \<Rightarrow> Env \<Rightarrow> error \<Rightarrow> SessionManager \<Rightarrow> (error + FlutterSession) \<times> SessionManager" where
  "createSessionCatch sid env e m =
     (Inl e, terminateSession sid (removeOk env) (updSession sid (\<lambda>s. s\<lparr>status := Error\<rparr>) m))"

definition createSession :: "string option \<Rightarrow> string option \<Rightarrow> Env \<Rightarrow> SessionManager \<Rightarrow> (error + FlutterSession) \<times> SessionManager" where
  "createSession uid initialPrompt env m =
     (if length (sessions m) \<ge> maxSessions then (Inl CapacityExceeded, m)
      else case getNextAvailablePort m of
             Inl e \<Rightarrow> (Inl e, m)
           | Inr prt \<Rightarrow>
               let sid = uuid env;
                   session = newSession uid env prt;
                   m1 = m\<lparr>sessions := AList.update sid session (sessions m),
                          usedPorts := insert prt (usedPorts m)\<rparr>
               in case initializeFlutterProject session initialPrompt env m1 of
                    (Some e, m2) \<Rightarrow> createSessionCatch sid env e m2
                  | (None, m2) \<Rightarrow>
                      (case startFlutterServer sid env m2 of
                         (Some e, m3) \<Rightarrow> createSessionCatch sid env e m3
                       | (None, m3) \<Rightarrow>
                           let m4 = updSession sid (\<lambda>s. s\<lparr>status := Ready\<rparr>) m3
                           in (case map_of (sessions m4) sid of
                                 Some s \<Rightarrow> (Inr s, m4)
                               | None \<Rightarrow> (Inr (session\<lparr>status := Ready\<rparr>), m4))))"

subsection \<open>updateSessionCode, hotReload, getSession, listSessions\<close>

text \<open>
  \<^verbatim>\<open>hotReload\<close>: throws when the session or its process is missing; otherwise writes
  \<^verbatim>\<open>'r\n'\<close> to the standard input of the process.
\<close>

definition hotReload :: "string \<Rightarrow> SessionManager \<Rightarrow> error option \<times> SessionManager" where
  "hotReload sid m =
     (case map_of (sessions m) sid of
        None \<Rightarrow> (Some NoActiveProcess, m)
      | Some session \<Rightarrow>
          (case flutterProcess session of
             None \<Rightarrow> (Some NoActiveProcess, m)
           | Some h \<Rightarrow> (None, updProc h (\<lambda>p. p\<lparr>stdin := stdin p @ [''r'' @ [CHR 0x0A]]\<rparr>) m)))"

text \<open>The value \<^verbatim>\<open>{ success: true, files: result.files }\<close>.\<close>

record UpdateResult =
  updateSuccess :: bool
  updateFiles :: "(string \<times> string) list option"

text \<open>
  \<^verbatim>\<open>updateSessionCode\<close>: throws for an id that is not in the map; then, with no look
  at the status, sets \<^verbatim>\<open>lastActive\<close>, reads \<^verbatim>\<open>lib/main.dart\<close>, asks the AI service,
  writes the files of the answer (or the code to \<^verbatim>\<open>lib/main.dart\<close> when the answer has
  no files), installs the dependencies and triggers the hot reload. Every error of
  these steps is logged and thrown again.
\<close>

definition updateSessionCode :: "string \<Rightarrow> string \<Rightarrow> Env \<Rightarrow> SessionManager \<Rightarrow> (error + UpdateResult) \<times> SessionManager" where
  "updateSessionCode sid prompt env m =
     (case map_of (sessions m) sid of
        None \<Rightarrow> (Inl NotFound, m)
      | Some session \<Rightarrow>
          let m1 = updSession sid (\<lambda>s. s\<lparr>lastActive := now env\<rparr>) m;
              mainDartPath = mainDartPathOf (projectPath session)
          in case files m1 mainDartPath of
               None \<Rightarrow> (Inl ReadFailed, m1)
             | Some currentCode \<Rightarrow>
                 (case generated env of
                    None \<Rightarrow> (Inl GenerationFailed, m1)
                  | Some res \<Rightarrow>
                      let fs1 = (case genFiles res of
                                   None \<Rightarrow> writeFile mainDartPath (code res) (files m1)
                                 | Some fl \<Rightarrow>
                                     if fl \<noteq> [] then writeFiles (projectPath session) fl (files m1)
                                     else writeFile mainDartPath (code res) (files m1))
                      in case installDependencies (projectPath session) res env fs1 of
                           (Some e, fs2) \<Rightarrow> (Inl e, m1\<lparr>files := fs2\<rparr>)
                         | (None, fs2) \<Rightarrow>
                             (case hotReload sid (m1\<lparr>files := fs2\<rparr>) of
                                (Some e, m3) \<Rightarrow> (Inl e, m3)
                              | (None, m3) \<Rightarrow>
                                  (Inr \<lparr>updateSuccess = True, updateFiles = genFiles res\<rparr>, m3))))"

text \<open>
  \<^verbatim>\<open>getSession\<close>: the session of the id, if any, after setting its \<^verbatim>\<open>lastActive\<close> to
  the current time. The second argument is the result of \<^verbatim>\<open>new Date()\<close>.
\<close>

definition getSession :: "string \<Rightarrow> int \<Rightarrow> SessionManager \<Rightarrow> FlutterSession option \<times> SessionManager" where
  "getSession sid t m =
     (case map_of (sessions m) sid of
        None \<Rightarrow> (None, m)
      | Some session \<Rightarrow>
          (Some (session\<lparr>lastActive := t\<rparr>), updSession sid (\<lambda>s. s\<lparr>lastActive := t\<rparr>) m))"

definition listSessions :: "SessionManager \<Rightarrow> FlutterSession list" where
  "listSessions m = map snd (sessions m)"

subsection \<open>The cleanup timer and shutdown\<close>

definition inactiveThreshold :: int where
  "inactiveThreshold = 60 * 60 * 1000"

text \<open>
  The callback of \<^verbatim>\<open>startCleanupTimer\<close>, run every ten minutes: \<open>t\<close> is its
  \<^verbatim>\<open>new Date()\<close>, taken once; the loop visits the entries of the map and terminates
  those whose \<^verbatim>\<open>lastActive\<close> is more than the threshold before \<open>t\<close>. \<open>rm\<close> says for
  each session whether the removal of its directory succeeds. The loop awaits each
  \<^verbatim>\<open>terminateSession\<close> before it goes on; the calls are whole calls here.
\<close>

fun cleanupLoop :: "string list \<Rightarrow> int \<Rightarrow> (string \<Rightarrow> bool) \<Rightarrow> SessionManager \<Rightarrow> SessionManager" where
  "cleanupLoop [] t rm m = m"
| "cleanupLoop (sid # rest) t rm m =
     cleanupLoop rest t rm
       (case map_of (sessions m) sid of
          None \<Rightarrow> m
        | Some session \<Rightarrow>
            if t - lastActive session > inactiveThreshold
            then terminateSession sid (rm sid) m else m)"

definition cleanupInactive :: "int \<Rightarrow> (string \<Rightarrow> bool) \<Rightarrow> SessionManager \<Rightarrow> SessionManager" where
  "cleanupInactive t rm m = cleanupLoop (map fst (sessions m)) t rm m"

text \<open>
  \<^verbatim>\<open>shutdown\<close>: \<^verbatim>\<open>terminateSession\<close> for every key of the map, here as whole
  calls one after the other. The source starts them all before it awaits any; that
  history is a sequence of the operations \<open>TerminateBegin\<close> and \<open>TerminateEnd\<close> below.
\<close>

definition shutdown :: "(string \<Rightarrow> bool) \<Rightarrow> SessionManager \<Rightarrow> SessionManager" where
  "shutdown rm m = fold (\<lambda>sid. terminateSession sid (rm sid)) (map fst (sessions m)) m"

subsection \<open>The two handlers of POST /:sessionId/code\<close>

text \<open>
  The handler that calls \<^verbatim>\<open>updateSessionCode\<close>, in the route file of
  \<^verbatim>\<open>src/unnamed/part_010\<close> (the only caller of \<^verbatim>\<open>updateSessionCode\<close> in the
  repository): the prompt must have 5 to 2000 characters; the session is looked up with
  \<^verbatim>\<open>getSession\<close> (answer 404 when there is none); a session whose status is not
  \<^verbatim>\<open>'ready'\<close> is answered with \<^verbatim>\<open>'Session not ready'\<close>; an error thrown by
  \<^verbatim>\<open>updateSessionCode\<close> is answered with status 500 and its message.
\<close>

definition postSessionCode :: "string \<Rightarrow> string \<Rightarrow> Env \<Rightarrow> SessionManager \<Rightarrow> (error + UpdateResult) \<times> SessionManager" where
  "postSessionCode sid prompt env m =
     (if length prompt < 5 \<or> 2000 < length prompt then (Inl InvalidRequest, m)
      else case getSession sid (now env) m of
             (None, m1) \<Rightarrow> (Inl NotFound, m1)
           | (Some session, m1) \<Rightarrow>
               if status session \<noteq> Ready then (Inl NotReady, m1)
               else updateSessionCode sid prompt env m1)"

text \<open>
  The handler of the same route in \<^verbatim>\<open>server/src/routes/sessions.ts\<close>, the file that
  \<^verbatim>\<open>index.ts\<close> mounts at \<^verbatim>\<open>/api/sessions\<close>, up to the point where it passes the
  request to the multi-agent service: the same test of the prompt, the same lookup with
  \<^verbatim>\<open>getSession\<close> (answer 404 when there is none), no test of the status and no call
  of \<^verbatim>\<open>updateSessionCode\<close>. \<open>Inr session\<close> is the request going on to
  \<^verbatim>\<open>multiAgentService\<close> with the session found; what the service does with it is not
  part of this model.
\<close>

definition postSessionCodeMultiAgent :: "string \<Rightarrow> string \<Rightarrow> Env \<Rightarrow> SessionManager \<Rightarrow> (error + FlutterSession) \<times> SessionManager" where
  "postSessionCodeMultiAgent sid prompt env m =
     (if length prompt < 5 \<or> 2000 < length prompt then (Inl InvalidRequest, m)
      else case getSession sid (now env) m of
             (None, m1) \<Rightarrow> (Inl NotFound, m1)
           | (Some session, m1) \<Rightarrow> (Inr session, m1))"

subsection \<open>Sequences of operations\<close>

text \<open>
  The calls that reach the manager, each with the answers of the environment, and the
  events of the runtime (a process ends, a grace timer or the cleanup timer fires).
  A call of \<^verbatim>\<open>terminateSession\<close> comes in two forms. \<open>TerminateSession\<close> is a call
  that nothing else runs in between. \<open>TerminateBegin\<close> is a call up to its
  \<^verbatim>\<open>await\<close>, where it joins the suspended calls, and \<open>TerminateEnd i rmOk\<close> is the
  suspended call number \<open>i\<close> resuming, \<open>rmOk\<close> saying whether its removal of the
  directory has succeeded: with these two the calls of \<^verbatim>\<open>terminateSession\<close> that
  overlap each other or other calls, as the requests \<^verbatim>\<open>DELETE /:sessionId\<close>, the
  cleanup timer and \<^verbatim>\<open>shutdown\<close> make them, are sequences of operations too. The
  other calls are taken whole.
\<close>

datatype Operation =
    CreateSession "string option" "string option" Env
  | TerminateSession string bool
  | TerminateBegin string
  | TerminateEnd nat bool
  | GetSession string int
  | UpdateSessionCode string string Env
  | PostSessionCode string string Env
  | ProcessExit nat
  | GraceTimer
  | CleanupTimer int "string \<Rightarrow> bool"
  | Shutdown "string \<Rightarrow> bool"

fun step :: "Operation \<Rightarrow> SessionManager \<Rightarrow> SessionManager" where
  "step (CreateSession uid prompt env) m = snd (createSession uid prompt env m)"
| "step (TerminateSession sid rmOk) m = terminateSession sid rmOk m"
| "step (TerminateBegin sid) m =
     (case terminateSessionBegin sid m of
        (None, m1) \<Rightarrow> m1
      | (Some session, m1) \<Rightarrow> m1\<lparr>suspended := suspended m1 @ [(sid, session)]\<rparr>)"
| "step (TerminateEnd i rmOk) m =
     (if i < length (suspended m)
      then (case suspended m ! i of
              (sid, session) \<Rightarrow>
                terminateSessionEnd sid session rmOk
                  (m\<lparr>suspended := take i (suspended m) @ drop (Suc i) (suspended m)\<rparr>))
      else m)"
| "step (GetSession sid t) m = snd (getSession sid t m)"
| "step (UpdateSessionCode sid prompt env) m = snd (updateSessionCode sid prompt env m)"
| "step (PostSessionCode sid prompt env) m = snd (postSessionCode sid prompt env m)"
| "step (ProcessExit h) m = processExit h m"
| "step GraceTimer m = runGraceTimer m"
| "step (CleanupTimer t rm) m = cleanupInactive t rm m"
| "step (Shutdown rm) m = shutdown rm m"

definition run :: "Operation list \<Rightarrow> SessionManager \<Rightarrow> SessionManager" where
  "run ops m = fold step ops m"

text \<open>The operations that are whole calls: all but the two halves of \<^verbatim>\<open>terminateSession\<close>.\<close>

fun whole :: "Operation \<Rightarrow> bool" where
  "whole (TerminateBegin sid) = False"
| "whole (TerminateEnd i rmOk) = False"
| "whole operation = True"

subsection \<open>Ports held by the live sessions\<close>

text \<open>
  The live sessions are the entries of the map; \<open>sessionPorts\<close> lists each with its
  port. \<open>portExclusive\<close>: no two live sessions hold the same port.
\<close>

definition sessionPorts :: "SessionManager \<Rightarrow> (string \<times> nat) list" where
  "sessionPorts m = map (\<lambda>(k, s). (k, port s)) (sessions m)"

definition portExclusive :: "SessionManager \<Rightarrow> bool" where
  "portExclusive m \<longleftrightarrow> distinct (map snd (sessionPorts m))"

text \<open>
  The invariant behind it: the keys of the map are distinct, the ports of the live
  sessions are distinct, and each is in \<^verbatim>\<open>usedPorts\<close>.
\<close>

definition portsInv :: "SessionManager \<Rightarrow> bool" where
  "portsInv m \<longleftrightarrow>
     distinct (map fst (sessionPorts m)) \<and> distinct (map snd (sessionPorts m)) \<and>
     set (map snd (sessionPorts m)) \<subseteq> usedPorts m"

subsection \<open>Example inputs\<close>

text \<open>An environment in which everything succeeds.\<close>

definition exampleEnv :: "string \<Rightarrow> Env" where
  "exampleEnv u = \<lparr>uuid = u, now = 1000, flutterCreate = Some [(''pubspec.yaml'', ''dependencies:'')],
             generated = None, pubGet = True, server = MarkerSeen, removeOk = True\<rparr>"

text \<open>
  Two calls of \<^verbatim>\<open>terminateSession\<close> with the same id that overlap, as the cleanup
  timer and a request \<^verbatim>\<open>DELETE /:sessionId\<close>, or two such requests, make them:
  session \<open>a\<close> is created; both calls run up to their \<^verbatim>\<open>await\<close>; the first
  resumes; session \<open>b\<close> is created; the second resumes; session \<open>c\<close> is created.
  \<open>overlappedManager\<close> is the state before the second call resumes.
\<close>

definition overlappedManager :: SessionManager where
  "overlappedManager =
     run [CreateSession None None (exampleEnv ''a''), TerminateBegin ''a'', TerminateBegin ''a'',
          TerminateEnd 0 True, CreateSession None None (exampleEnv ''b'')] initialManager"

definition overlapOps :: "Operation list" where
  "overlapOps =
     [CreateSession None None (exampleEnv ''a''), TerminateBegin ''a'', TerminateBegin ''a'',
      TerminateEnd 0 True, CreateSession None None (exampleEnv ''b''), TerminateEnd 0 True,
      CreateSession None None (exampleEnv ''c'')]"

text \<open>An environment in which the server never prints the marker and keeps running.\<close>

definition silentEnv :: Env where
  "silentEnv = (exampleEnv ''a'')\<lparr>server := NoMarker False\<rparr>"

text \<open>
  A session is asked for in that environment; its process does not end on SIGTERM (no
  exit event), and the grace timer fires.
\<close>

definition rollbackOps :: "Operation list" where
  "rollbackOps = [CreateSession None None silentEnv, GraceTimer]"

text \<open>
  A session is created and terminated; its process does not end on SIGTERM (no exit
  event), and the grace timer fires.
\<close>

definition stubbornOps :: "Operation list" where
  "stubbornOps = [CreateSession None None (exampleEnv ''a''), TerminateSession ''a'' True, GraceTimer]"

text \<open>One session, created at time 1000 and never used since.\<close>

definition idleManager :: SessionManager where
  "idleManager = run [CreateSession None None (exampleEnv ''a'')] initialManager"

definition sessionA :: FlutterSession where
  "sessionA = \<lparr>sessionId = ''a'', userId = None, projectPath = ''temp/sessions/a'', port = 8080,
         flutterProcess = Some 0, createdAt = 1000, lastActive = 1000, status = Ready,
         previewUrl = ''http://localhost:8080''\<rparr>"

text \<open>
  A session whose server has ended: it was created at time 1000 with a
  \<^verbatim>\<open>lib/main.dart\<close>, then its process exited, so its status is \<^verbatim>\<open>'terminated'\<close>.
\<close>

definition projectEnv :: Env where
  "projectEnv = (exampleEnv ''a'')\<lparr>flutterCreate := Some [(''lib/main.dart'', ''void main() {}'')]\<rparr>"

definition stoppedManager :: SessionManager where
  "stoppedManager = run [CreateSession None None projectEnv, ProcessExit 0] initialManager"

definition updateEnv :: Env where
  "updateEnv = (exampleEnv ''x'')\<lparr>now := 2000,
     generated := Some \<lparr>code = ''void main() { run(); }'', explanation = None,
                        dependencies = None, genFiles = None\<rparr>\<rparr>"

text \<open>
  A manager at capacity: fifty live sessions on the ports 8080 to 8129, which are the
  record \<open>sessionB\<close> but for id and port.
\<close>

definition sessionB :: FlutterSession where
  "sessionB = \<lparr>sessionId = ''b'', userId = None, projectPath = ''temp/sessions/b'', port = 8081,
         flutterProcess = Some 1, createdAt = 1000, lastActive = 1000, status = Ready,
         previewUrl = ''http://localhost:8081''\<rparr>"

definition fullManager :: SessionManager where
  "fullManager =
     initialManager\<lparr>sessions := map (\<lambda>i. (showNat i, sessionB\<lparr>sessionId := showNat i, port := 8080 + i\<rparr>)) [0..<50],
                    usedPorts := {8080..<8130}\<rparr>"

section \<open>Orchestrator (server/src/agents/MasterOrchestratorAgent.ts)\<close>

subsection \<open>Plans and their order\<close>

text \<open>
  \<^verbatim>\<open>interface ReWOOPlan\<close>: \<^verbatim>\<open>id\<close>, \<^verbatim>\<open>type\<close>, \<^verbatim>\<open>dependencies\<close>, \<^verbatim>\<open>status\<close>,
  \<^verbatim>\<open>result\<close> and \<^verbatim>\<open>error\<close> are \<open>planId\<close>, \<open>planType\<close>, \<open>planDependencies\<close>,
  \<open>planStatus\<close>, \<open>planResult\<close> and \<open>planError\<close>. The payload of a result is opaque
  to the orchestrator and is a string here.
\<close>

datatype PlanType = Design | Code | Test | Integrate

datatype PlanStatus = Pending | InProgress | Completed | Failed

record ReWOOPlan =
  planId :: string
  planType :: PlanType
  agentId :: string
  planDependencies :: "string list"
  planStatus :: PlanStatus
  planResult :: "string option"
  planError :: "string option"

text \<open>
  A plan object is a reference into the array \<^verbatim>\<open>this.state.plans\<close>: it is the index
  of the plan in that array. \<^verbatim>\<open>plans.find(p => p.id === depId)\<close> gives the first plan
  with that id.
\<close>

fun findIndex :: "('a \<Rightarrow> bool) \<Rightarrow> 'a list \<Rightarrow> nat option" where
  "findIndex P [] = None"
| "findIndex P (x # xs) = (if P x then Some 0 else map_option Suc (findIndex P xs))"

definition findPlan :: "ReWOOPlan list \<Rightarrow> string \<Rightarrow> nat option" where
  "findPlan ps depId = findIndex (\<lambda>p. planId p = depId) ps"

text \<open>
  The two variables that \<^verbatim>\<open>sortPlansByDependencies\<close> fills: the array \<^verbatim>\<open>sorted\<close>
  (\<open>sortedSoFar\<close>) and the set \<^verbatim>\<open>processed\<close> of ids.
\<close>

record SortState =
  sortedSoFar :: "nat list"
  processed :: "string set"

text \<open>
  A \<^verbatim>\<open>for ... of\<close> loop whose body may not return: the loop returns when every
  pass does.
\<close>

fun forEach :: "('a \<Rightarrow> 's \<Rightarrow> 's option) \<Rightarrow> 'a list \<Rightarrow> 's \<Rightarrow> 's option" where
  "forEach f [] s = Some s"
| "forEach f (x # xs) s = Option.bind (f x s) (forEach f xs)"

lemma forEach_mono [partial_function_mono]:
  assumes "\<And>x s. mono_option (\<lambda>f. B f x s)"
  shows "mono_option (\<lambda>f. forEach (B f) xs s)"
proof (induction xs arbitrary: s)
  case Nil
  show ?case by (simp add: option.const_mono)
next
  case (Cons x xs)
  show ?case
    unfolding forEach.simps
    by (rule bind_mono) (rule assms, rule Cons.IH)
qed

text \<open>
  The inner function \<^verbatim>\<open>addPlan\<close>: nothing for a plan whose id is processed;
  otherwise \<^verbatim>\<open>addPlan\<close> on each dependency that is found and not processed, then the
  plan is pushed and its id recorded. There is no marker for a plan whose dependencies are
  being added, so the recursion need not return: the value \<open>None\<close> stands for a call
  that never returns.
\<close>

partial_function (option) addPlan :: "ReWOOPlan list \<Rightarrow> nat \<Rightarrow> SortState \<Rightarrow> SortState option" where
  "addPlan ps i st =
     (if planId (ps ! i) \<in> processed st then Some st
      else Option.bind
             (forEach (\<lambda>depId st'.
                         case findPlan ps depId of
                           Some j \<Rightarrow> if depId \<notin> processed st' then addPlan ps j st' else Some st'
                         | None \<Rightarrow> Some st')
                      (planDependencies (ps ! i)) st)
             (\<lambda>st'. Some (st'\<lparr>sortedSoFar := sortedSoFar st' @ [i],
                              processed := insert (planId (ps ! i)) (processed st')\<rparr>)))"

declare addPlan.simps [code]

text \<open>\<^verbatim>\<open>sortPlansByDependencies\<close>: \<^verbatim>\<open>addPlan\<close> on every plan, in the order of the array.\<close>

definition sortPlansByDependencies :: "ReWOOPlan list \<Rightarrow> nat list option" where
  "sortPlansByDependencies ps =
     map_option sortedSoFar
       (forEach (addPlan ps) [0..<length ps] \<lparr>sortedSoFar = [], processed = {}\<rparr>)"

text \<open>
  Plan \<open>i\<close> depends on plan \<open>j\<close> when one of the dependencies of \<open>i\<close> is resolved to
  \<open>j\<close>. A dependency cycle is a list of plans, not empty, each of which depends on the
  next, and the last on the first.
\<close>

definition dependsOn :: "ReWOOPlan list \<Rightarrow> nat \<Rightarrow> nat \<Rightarrow> bool" where
  "dependsOn ps i j \<longleftrightarrow>
     list_ex (\<lambda>depId. findPlan ps depId = Some j) (planDependencies (ps ! i))"

definition isCycle :: "ReWOOPlan list \<Rightarrow> nat list \<Rightarrow> bool" where
  "isCycle ps cyc \<longleftrightarrow>
     cyc \<noteq> [] \<and>
     list_all (\<lambda>k. dependsOn ps (cyc ! k) (cyc ! ((k + 1) mod length cyc))) [0..<length cyc]"

text \<open>
  For the proofs: plan \<open>i\<close> is the first plan with its id; no id of a plan of the
  cycle is processed.
\<close>

definition firstOfId :: "ReWOOPlan list \<Rightarrow> nat \<Rightarrow> bool" where
  "firstOfId ps i \<longleftrightarrow> findPlan ps (planId (ps ! i)) = Some i"

definition cycleUntouched :: "ReWOOPlan list \<Rightarrow> nat list \<Rightarrow> SortState \<Rightarrow> bool" where
  "cycleUntouched ps cyc st \<longleftrightarrow> (\<forall>c \<in> set cyc. planId (ps ! c) \<notin> processed st)"

subsection \<open>State, results and the outside world\<close>

text \<open>
  \<^verbatim>\<open>interface OrchestratorState\<close>. The phases are the strings \<^verbatim>\<open>'planning'\<close>,
  \<^verbatim>\<open>'execution'\<close>, \<^verbatim>\<open>'integration'\<close> and \<^verbatim>\<open>'completion'\<close>. Of \<^verbatim>\<open>context\<close> the
  user prompt is kept (the requirements are computed from it). The integrated result has
  one slot for each of design, code and tests; its project name and its time stamp, taken
  from the prompt text and the clock, are left out.
\<close>

datatype Phase = PlanningPhase | ExecutionPhase | IntegrationPhase | CompletionPhase

record IntegratedResult =
  projectDescription :: string
  designSlot :: "string option"
  codeSlot :: "string option"
  testsSlot :: "string option"
  agentsUsed :: "string list"
  totalPlans :: nat
  successfulPlans :: nat

record OrchestratorState =
  currentPhase :: Phase
  plans :: "ReWOOPlan list"
  userPrompt :: "string option"
  finalResult :: "IntegratedResult option"

definition initialState :: OrchestratorState where
  "initialState = \<lparr>currentPhase = PlanningPhase, plans = [], userPrompt = None, finalResult = None\<rparr>"

text \<open>
  \<^verbatim>\<open>interface AgentResult\<close>, with the three shapes of \<^verbatim>\<open>data\<close> that the orchestrator
  builds; \<^verbatim>\<open>confidence\<close> is in hundredths. An entry of the array \<^verbatim>\<open>results\<close> of
  \<^verbatim>\<open>executeReWOOPlan\<close> is an \<open>ExecutionResult\<close>.
\<close>

record ExecutionResult =
  resultPlanId :: string
  resultAgentId :: string
  resultType :: PlanType
  resultPayload :: "string option"

datatype ResultData =
    PlanningData "ReWOOPlan list"
  | ExecutionData "ExecutionResult list"
  | IntegrationData IntegratedResult

record AgentResult =
  success :: bool
  resultData :: "ResultData option"
  errorMessage :: "string option"
  nextSteps :: "string list option"
  confidence :: nat

definition failure :: "string \<Rightarrow> AgentResult" where
  "failure msg = \<lparr>success = False, resultData = None, errorMessage = Some msg,
                  nextSteps = None, confidence = 0\<rparr>"

text \<open>
  The message sent to a specialised agent (its id, time stamp and session are left out)
  and the agent's answer. The world outside the orchestrator: \<open>planning\<close> is what
  \<^verbatim>\<open>callGemini\<close> gives to \<^verbatim>\<open>createExecutionPlan\<close> (\<open>CallFails\<close>: it throws;
  \<open>Response None\<close>: an answer without a list of plans; \<open>Response (Some ps)\<close>: an answer
  with the plans \<open>ps\<close>); \<open>agents\<close> is what the agent addressed by a message does with it,
  \<open>Inl\<close> being the message of the error it throws.
\<close>

record AgentPayload =
  promptInput :: "string option"
  designInput :: "string option"
  codebaseInput :: "string option"

record AgentMessage =
  targetAgent :: string
  action :: string
  payload :: AgentPayload

record AgentReply =
  replySuccess :: bool
  replyData :: "string option"
  replyError :: "string option"

datatype PlanningResponse = CallFails | Response "ReWOOPlan list option"

record World =
  planning :: PlanningResponse
  agents :: "AgentMessage \<Rightarrow> string + AgentReply"

text \<open>
  \<^verbatim>\<open>agentBus.sendMessage\<close>: throws for an agent that is not registered; the
  constructor registers three.
\<close>

definition registeredAgents :: "string list" where
  "registeredAgents = [''design-agent'', ''code-agent'', ''testing-agent'']"

definition sendMessage :: "World \<Rightarrow> AgentMessage \<Rightarrow> string + AgentReply" where
  "sendMessage world msg =
     (if targetAgent msg \<notin> set registeredAgents
      then Inl (''Agent '' @ targetAgent msg @ '' not found'')
      else agents world msg)"

subsection \<open>Planning, execution, integration\<close>

text \<open>
  \<^verbatim>\<open>createExecutionPlan\<close>: \<^verbatim>\<open>if (planningResponse.plans)\<close> stores the plans, each with
  the status \<^verbatim>\<open>'pending'\<close>, and succeeds; an empty array passes this test. Everything
  else ends in the \<^verbatim>\<open>catch\<close> block.
\<close>

definition resetPlans :: "ReWOOPlan list \<Rightarrow> ReWOOPlan list" where
  "resetPlans ps = map (\<lambda>p. p\<lparr>planStatus := Pending\<rparr>) ps"

definition createExecutionPlan :: "string \<Rightarrow> World \<Rightarrow> OrchestratorState \<Rightarrow> AgentResult \<times> OrchestratorState" where
  "createExecutionPlan prompt world st =
     (case planning world of
        CallFails \<Rightarrow> (failure ''Failed to create execution plan'', st)
      | Response None \<Rightarrow> (failure ''Failed to create execution plan'', st)
      | Response (Some ps) \<Rightarrow>
          let st' = st\<lparr>plans := resetPlans ps, userPrompt := Some prompt\<rparr>
          in (\<lparr>success = True, resultData = Some (PlanningData (plans st')), errorMessage = None,
               nextSteps = None, confidence = 90\<rparr>, st'))"

definition getAgentAction :: "PlanType \<Rightarrow> string" where
  "getAgentAction t =
     (case t of Design \<Rightarrow> ''create_design'' | Code \<Rightarrow> ''generate_code''
      | Test \<Rightarrow> ''generate_tests'' | Integrate \<Rightarrow> ''process'')"

definition buildAgentPayload :: "OrchestratorState \<Rightarrow> ReWOOPlan \<Rightarrow> ExecutionResult list \<Rightarrow> AgentPayload" where
  "buildAgentPayload st plan previousResults =
     (let basePayload = \<lparr>promptInput = userPrompt st, designInput = None, codebaseInput = None\<rparr>;
          dependencyResults = filter (\<lambda>r. resultPlanId r \<in> set (planDependencies plan)) previousResults
      in case planType plan of
           Design \<Rightarrow> basePayload
         | Code \<Rightarrow>
             basePayload\<lparr>designInput :=
               Option.bind (find (\<lambda>r. resultType r = Design) dependencyResults) resultPayload\<rparr>
         | Test \<Rightarrow>
             basePayload\<lparr>codebaseInput :=
               Option.bind (find (\<lambda>r. resultType r = Code) dependencyResults) resultPayload\<rparr>
         | Integrate \<Rightarrow> basePayload)"

text \<open>An assignment to a field of the plan object \<open>i\<close>.\<close>

definition setPlan :: "nat \<Rightarrow> (ReWOOPlan \<Rightarrow> ReWOOPlan) \<Rightarrow> OrchestratorState \<Rightarrow> OrchestratorState" where
  "setPlan i f st = (if i < length (plans st) then st\<lparr>plans := (plans st)[i := f (plans st ! i)]\<rparr> else st)"

text \<open>How a template string prints an optional string.\<close>

definition showOptional :: "string option \<Rightarrow> string" where
  "showOptional x = (case x of None \<Rightarrow> ''undefined'' | Some s \<Rightarrow> s)"

text \<open>
  One pass of the loop of \<^verbatim>\<open>executeReWOOPlan\<close>, for plan \<open>i\<close>: the status becomes
  \<^verbatim>\<open>'in_progress'\<close>, the message is sent; on success the plan is completed and its
  result appended to \<^verbatim>\<open>results\<close> (\<open>Inr\<close>, the loop goes on); when the agent reports a
  failure or throws, the plan is failed and the function returns the failure (\<open>Inl\<close>).
\<close>

definition executePlan :: "World \<Rightarrow> nat \<Rightarrow> ExecutionResult list \<Rightarrow> OrchestratorState \<Rightarrow> (AgentResult + ExecutionResult list) \<times> OrchestratorState" where
  "executePlan world i results st =
     (let plan = plans st ! i;
          st1 = setPlan i (\<lambda>p. p\<lparr>planStatus := InProgress\<rparr>) st;
          msg = \<lparr>targetAgent = agentId plan, action = getAgentAction (planType plan),
                 payload = buildAgentPayload st1 plan results\<rparr>
      in case sendMessage world msg of
           Inl err \<Rightarrow>
             (Inl (failure (''Plan execution failed: '' @ err)),
              setPlan i (\<lambda>p. p\<lparr>planStatus := Failed, planError := Some err\<rparr>) st1)
         | Inr reply \<Rightarrow>
             if replySuccess reply
             then (Inr (results @ [\<lparr>resultPlanId = planId plan, resultAgentId = agentId plan,
                                     resultType = planType plan, resultPayload = replyData reply\<rparr>]),
                   setPlan i (\<lambda>p. p\<lparr>planStatus := Completed, planResult := replyData reply\<rparr>) st1)
             else (Inl (failure (''Agent '' @ agentId plan @ '' failed: '' @ showOptional (replyError reply))),
                   setPlan i (\<lambda>p. p\<lparr>planStatus := Failed, planError := replyError reply\<rparr>) st1))"

definition executionOk :: "ExecutionResult list \<Rightarrow> AgentResult" where
  "executionOk results =
     \<lparr>success = True, resultData = Some (ExecutionData results), errorMessage = None,
      nextSteps = None, confidence = 85\<rparr>"

fun executePlans :: "World \<Rightarrow> nat list \<Rightarrow> ExecutionResult list \<Rightarrow> OrchestratorState \<Rightarrow> AgentResult \<times> OrchestratorState" where
  "executePlans world [] results st = (executionOk results, st)"
| "executePlans world (i # rest) results st =
     (case executePlan world i results st of
        (Inl failed, st') \<Rightarrow> (failed, st')
      | (Inr results', st') \<Rightarrow> executePlans world rest results' st')"

text \<open>
  \<^verbatim>\<open>executeReWOOPlan\<close>. The order is computed before the loop and outside its
  \<^verbatim>\<open>try\<close>: a recursion that never returns exhausts the call stack of the runtime, and
  the \<^verbatim>\<open>RangeError\<close> leaves the function (\<open>Inl\<close> is the message of a thrown error).
\<close>

definition executeReWOOPlan :: "World \<Rightarrow> OrchestratorState \<Rightarrow> (string + AgentResult) \<times> OrchestratorState" where
  "executeReWOOPlan world st =
     (case sortPlansByDependencies (plans st) of
        None \<Rightarrow> (Inl ''Maximum call stack size exceeded'', st)
      | Some order \<Rightarrow>
          (case executePlans world order [] st of (r, st') \<Rightarrow> (Inr r, st')))"

definition getResultByType :: "OrchestratorState \<Rightarrow> PlanType \<Rightarrow> ReWOOPlan option" where
  "getResultByType st t = find (\<lambda>p. planType p = t \<and> planStatus p = Completed) (plans st)"

text \<open>
  \<^verbatim>\<open>integrateResults\<close>: one slot for each of design, code and tests, filled from the
  first completed plan of that type by \<^verbatim>\<open>plan?.result || null\<close>, so a payload that is
  falsy, for a string the empty one, leaves the slot empty as a missing plan does.
  Without a prompt \<^verbatim>\<open>generateProjectName\<close> throws.
\<close>

definition orNull :: "string option \<Rightarrow> string option" where
  "orNull v = (case v of None \<Rightarrow> None | Some d \<Rightarrow> if d = [] then None else Some d)"

definition integrationOk :: "IntegratedResult \<Rightarrow> AgentResult" where
  "integrationOk art =
     \<lparr>success = True, resultData = Some (IntegrationData art), errorMessage = None,
      nextSteps = Some [''Flutter project files have been generated'',
                        ''Test suite is ready for execution'',
                        ''Code can be exported for deployment'',
                        ''Firebase integration can be added''],
      confidence = 90\<rparr>"

definition integrateResults :: "OrchestratorState \<Rightarrow> (string + AgentResult) \<times> OrchestratorState" where
  "integrateResults st =
     (case userPrompt st of
        None \<Rightarrow> (Inl ''Cannot read properties of undefined'', st)
      | Some prompt \<Rightarrow>
          let integratedResult =
                \<lparr>projectDescription = prompt,
                 designSlot = orNull (Option.bind (getResultByType st Design) planResult),
                 codeSlot = orNull (Option.bind (getResultByType st Code) planResult),
                 testsSlot = orNull (Option.bind (getResultByType st Test) planResult),
                 agentsUsed = map agentId (plans st),
                 totalPlans = length (plans st),
                 successfulPlans = length (filter (\<lambda>p. planStatus p = Completed) (plans st))\<rparr>
          in (Inr (integrationOk integratedResult),
              st\<lparr>finalResult := Some integratedResult, currentPhase := CompletionPhase\<rparr>))"

text \<open>\<^verbatim>\<open>buildApplication\<close>: planning, execution, integration; it returns at the first phase that fails.\<close>

definition buildApplication :: "string \<Rightarrow> World \<Rightarrow> OrchestratorState \<Rightarrow> (string + AgentResult) \<times> OrchestratorState" where
  "buildApplication prompt world st =
     (case createExecutionPlan prompt world (st\<lparr>currentPhase := PlanningPhase\<rparr>) of
        (planningResult, st1) \<Rightarrow>
          if \<not> success planningResult then (Inr planningResult, st1)
          else (case executeReWOOPlan world (st1\<lparr>currentPhase := ExecutionPhase\<rparr>) of
                  (Inl thrown, st2) \<Rightarrow> (Inl thrown, st2)
                | (Inr executionResult, st2) \<Rightarrow>
                    if \<not> success executionResult then (Inr executionResult, st2)
                    else integrateResults (st2\<lparr>currentPhase := IntegrationPhase\<rparr>)))"

definition continueExecution :: "World \<Rightarrow> OrchestratorState \<Rightarrow> (string + AgentResult) \<times> OrchestratorState" where
  "continueExecution world st =
     (case currentPhase st of
        ExecutionPhase \<Rightarrow> executeReWOOPlan world st
      | IntegrationPhase \<Rightarrow> integrateResults st
      | _ \<Rightarrow> (Inr (failure ''No continuation available for current phase''), st))"

text \<open>
  \<^verbatim>\<open>processMessage\<close>: the action \<^verbatim>\<open>'build_app'\<close> or \<^verbatim>\<open>'continue_execution'\<close>; an
  error thrown below is caught and returned as a failed result with its message.
\<close>

datatype Action = BuildApp string | ContinueExecution | OtherAction string

definition processMessage :: "Action \<Rightarrow> World \<Rightarrow> OrchestratorState \<Rightarrow> AgentResult \<times> OrchestratorState" where
  "processMessage act world st =
     (case (case act of
              BuildApp prompt \<Rightarrow> buildApplication prompt world st
            | ContinueExecution \<Rightarrow> continueExecution world st
            | OtherAction a \<Rightarrow> (Inl (''Unknown action: '' @ a), st)) of
        (Inl thrown, st') \<Rightarrow> (failure thrown, st')
      | (Inr r, st') \<Rightarrow> (r, st'))"

text \<open>
  The state in which \<^verbatim>\<open>buildApplication\<close> enters the execution phase after a planning
  answer with the plans \<open>ps\<close>; a state none of whose plans is failed.
\<close>

definition started :: "string \<Rightarrow> ReWOOPlan list \<Rightarrow> OrchestratorState \<Rightarrow> OrchestratorState" where
  "started prompt ps st =
     st\<lparr>currentPhase := ExecutionPhase, plans := resetPlans ps, userPrompt := Some prompt\<rparr>"


subsection \<open>Example inputs\<close>

text \<open>
  A plan with the agent of its type; three tasks of which the second, the code task,
  fails; an empty plan; no plan list; two tasks that depend on each other.
\<close>

definition mk :: "string \<Rightarrow> PlanType \<Rightarrow> string list \<Rightarrow> ReWOOPlan" where
  "mk i t ds =
     \<lparr>planId = i, planType = t,
      agentId = (case t of Design \<Rightarrow> ''design-agent'' | Code \<Rightarrow> ''code-agent''
                 | Test \<Rightarrow> ''testing-agent'' | Integrate \<Rightarrow> ''none''),
      planDependencies = ds, planStatus = Pending, planResult = None, planError = None\<rparr>"

definition replyOk :: "string \<Rightarrow> string + AgentReply" where
  "replyOk d = Inr \<lparr>replySuccess = True, replyData = Some d, replyError = None\<rparr>"



definition emptyPlanWorld :: World where
  "emptyPlanWorld = \<lparr>planning = Response (Some []), agents = (\<lambda>m. Inl ''not called'')\<rparr>"

definition noAnswerWorld :: World where
  "noAnswerWorld = \<lparr>planning = Response None, agents = (\<lambda>m. Inl ''not called'')\<rparr>"

definition cyclicPlans :: "ReWOOPlan list" where
  "cyclicPlans = [mk ''a'' Design [''b''], mk ''b'' Code [''a'']]"

definition cyclicWorld :: World where
  "cyclicWorld = \<lparr>planning = Response (Some cyclicPlans), agents = (\<lambda>m. replyOk ''done'')\<rparr>"

definition emptyArtifact :: "string \<Rightarrow> IntegratedResult" where
  "emptyArtifact prompt =
     \<lparr>projectDescription = prompt, designSlot = None, codeSlot = None, testsSlot = None,
      agentsUsed = [], totalPlans = 0, successfulPlans = 0\<rparr>"

section \<open>Properties of the session manager\<close>

subsection \<open>Evaluation and invariants\<close>

lemma scan_hit: "p < limit \<Longrightarrow> p \<notin> used \<Longrightarrow> scanPorts used p limit = Some p"
  by (subst scanPorts.simps) simp

lemma scan_miss: "p < limit \<Longrightarrow> p \<in> used \<Longrightarrow> scanPorts used p limit = scanPorts used (p + 1) limit"
  by (subst scanPorts.simps) simp

lemma terminateSession_unfold:
  "terminateSession sid rmOk m =
     (case map_of (sessions m) sid of
        None \<Rightarrow> m
      | Some session \<Rightarrow>
          let m1 = (case flutterProcess session of
                      None \<Rightarrow> m
                    | Some h \<Rightarrow> (updProc h (kill SIGTERM) m)\<lparr>graceTimers := graceTimers m @ [h]\<rparr>);
              m2 = (if rmOk then m1\<lparr>files := removeTree (projectPath session) (files m1)\<rparr> else m1)
          in m2\<lparr>usedPorts := usedPorts m2 - {port session},
                sessions := AList.delete sid (sessions m2)\<rparr>)"
  by (simp add: terminateSession_def terminateSessionBegin_def terminateSessionEnd_def Let_def
      split: option.splits)

lemmas eval_defs = run_def createSession_def newSession_def createSessionCatch_def getNextAvailablePort_def maxSessions_def basePort_def
  scan_hit scan_miss initializeFlutterProject_def startFlutterServer_def spawn_def updSession_def
  terminateSession_unfold updProc_def kill_def newProcess_def initialManager_def pathJoin_def normalizePath_def
  projectsDir_def writeFile_def removeTree_def Let_def sessionPorts_def

lemma scanPorts_Some:
  "scanPorts used p limit = Some q \<Longrightarrow>
     p \<le> q \<and> q < limit \<and> q \<notin> used \<and> (\<forall>r. p \<le> r \<and> r < q \<longrightarrow> r \<in> used)"
proof (induction used p limit rule: scanPorts.induct)
  case (1 used p limit)
  show ?case
  proof (cases "p < limit \<and> p \<in> used")
    case True
    then have "scanPorts used (p + 1) limit = Some q"
      using "1.prems" by (subst (asm) scanPorts.simps) simp
    with "1.IH" True have IH: "p + 1 \<le> q \<and> q < limit \<and> q \<notin> used \<and> (\<forall>r. p + 1 \<le> r \<and> r < q \<longrightarrow> r \<in> used)"
      by simp
    show ?thesis
    proof (intro conjI allI impI)
      fix r assume "p \<le> r \<and> r < q"
      then show "r \<in> used" using IH True by (cases "r = p") auto
    qed (use IH in auto)
  next
    case False
    then show ?thesis using "1.prems" by (subst (asm) scanPorts.simps) (auto split: if_splits)
  qed
qed

lemma sessionPorts_map_entry:
  "(\<And>s. port (f s) = port s) \<Longrightarrow>
   map (\<lambda>(k, s). (k, port s)) (AList.map_entry sid f al) = map (\<lambda>(k, s). (k, port s)) al"
  by (induction al) auto

lemma sessionPorts_updSession:
  "(\<And>s. port (f s) = port s) \<Longrightarrow> sessionPorts (updSession sid f m) = sessionPorts m"
  by (simp add: sessionPorts_def updSession_def sessionPorts_map_entry)

lemma sessionPorts_updProc [simp]: "sessionPorts (updProc h f m) = sessionPorts m"
  by (simp add: sessionPorts_def updProc_def)

lemma usedPorts_updProc [simp]: "usedPorts (updProc h f m) = usedPorts m"
  by (simp add: updProc_def)

lemma usedPorts_updSession [simp]: "usedPorts (updSession sid f m) = usedPorts m"
  by (simp add: updSession_def)

lemma sessionPorts_processExit [simp]: "sessionPorts (processExit h m) = sessionPorts m"
  by (simp add: sessionPorts_def processExit_def updProc_def case_prod_unfold comp_def)

lemma usedPorts_processExit [simp]: "usedPorts (processExit h m) = usedPorts m"
  by (simp add: processExit_def)

lemma sessionPorts_update:
  "map (\<lambda>(k, s). (k, port s)) (AList.update sid s al) =
   AList.update sid (port s) (map (\<lambda>(k, s). (k, port s)) al)"
  by (induction al) auto

lemma sessionPorts_delete:
  "map (\<lambda>(k, s). (k, port s)) (AList.delete sid al) =
   AList.delete sid (map (\<lambda>(k, s). (k, port s)) al)"
  by (induction al) auto

lemma map_of_sessionPorts:
  "map_of (sessionPorts m) sid = map_option port (map_of (sessions m) sid)"
  unfolding sessionPorts_def by (induction "sessions m" arbitrary: m) (auto simp: map_of_map)

lemma alist_update_fresh:
  fixes al :: "(string \<times> nat) list"
  assumes "distinct (map fst al)" "distinct (map snd al)" "p \<notin> snd ` set al"
  shows "distinct (map fst (AList.update k p al)) \<and> distinct (map snd (AList.update k p al)) \<and>
         snd ` set (AList.update k p al) \<subseteq> insert p (snd ` set al)"
  using assms by (induction al) (auto simp: AList.dom_update image_iff)

lemma alist_delete_inv:
  fixes al :: "(string \<times> nat) list"
  assumes "distinct (map fst al)" "distinct (map snd al)" "map_of al k = Some p"
  shows "distinct (map fst (AList.delete k al)) \<and> distinct (map snd (AList.delete k al)) \<and>
         snd ` set (AList.delete k al) \<subseteq> snd ` set al - {p}"
proof (intro conjI)
  have kp: "(k, p) \<in> set al" using assms(3) by (rule map_of_SomeD)
  have inj: "inj_on snd (set al)" using assms(2) by (simp add: distinct_map)
  show "distinct (map fst (AList.delete k al))" using assms(1) by (rule AList.distinct_delete)
  show "distinct (map snd (AList.delete k al))"
    using assms(2) by (simp add: AList.delete_eq distinct_map_filter)
  show "snd ` set (AList.delete k al) \<subseteq> snd ` set al - {p}"
  proof
    fix q assume "q \<in> snd ` set (AList.delete k al)"
    then obtain k' where x: "(k', q) \<in> set al" "k' \<noteq> k"
      by (auto simp: AList.delete_eq)
    have "q \<noteq> p"
    proof
      assume "q = p"
      with inj_onD[OF inj, of "(k', q)" "(k, p)"] kp x(1) have "(k', q) = (k, p)" by simp
      with x(2) show False by simp
    qed
    with x(1) show "q \<in> snd ` set al - {p}" by force
  qed
qed

lemma sessionPorts_terminate:
  "sessionPorts (terminateSession sid rmOk m) = AList.delete sid (sessionPorts m)"
proof (cases "map_of (sessions m) sid")
  case None
  then have "map_of (sessionPorts m) sid = None" by (simp add: map_of_sessionPorts)
  then have "sid \<notin> fst ` set (sessionPorts m)" by (simp add: map_of_eq_None_iff)
  then show ?thesis using None by (simp add: terminateSession_unfold)
next
  case (Some s)
  then show ?thesis
    by (simp add: terminateSession_unfold sessionPorts_def sessionPorts_delete Let_def updProc_def
        split: option.splits)
qed

lemma usedPorts_terminate:
  "usedPorts (terminateSession sid rmOk m) =
     (case map_of (sessions m) sid of None \<Rightarrow> usedPorts m | Some s \<Rightarrow> usedPorts m - {port s})"
  by (auto simp: terminateSession_unfold Let_def updProc_def split: option.splits)

lemma portsInv_terminate: "portsInv m \<Longrightarrow> portsInv (terminateSession sid rmOk m)"
proof (cases "map_of (sessions m) sid")
  case None
  assume "portsInv m"
  then show ?thesis using None by (simp add: terminateSession_unfold)
next
  case (Some s)
  assume inv: "portsInv m"
  have mp: "map_of (sessionPorts m) sid = Some (port s)"
    using Some by (simp add: map_of_sessionPorts)
  from alist_delete_inv[OF _ _ mp] inv
  show ?thesis
    unfolding portsInv_def sessionPorts_terminate usedPorts_terminate using Some
    by auto
qed

lemma initializeFlutterProject_frame:
  "initializeFlutterProject session p env m = (r, m') \<Longrightarrow>
     sessions m' = sessions m \<and> usedPorts m' = usedPorts m \<and> procs m' = procs m \<and>
     graceTimers m' = graceTimers m"
  by (auto simp: initializeFlutterProject_def Let_def split: option.splits if_splits)

lemma startFlutterServer_ports:
  "startFlutterServer sid env m = (r, m') \<Longrightarrow>
     sessionPorts m' = sessionPorts m \<and> usedPorts m' = usedPorts m"
proof -
  assume a: "startFlutterServer sid env m = (r, m')"
  have sp: "sessionPorts (updSession sid (\<lambda>s. s\<lparr>flutterProcess := Some (length (procs m))\<rparr>)
              (m\<lparr>procs := procs m @ [newProcess]\<rparr>)) = sessionPorts m"
    by (simp add: sessionPorts_updSession) (simp add: sessionPorts_def)
  show ?thesis
    using a sp by (cases "server env") (auto simp: startFlutterServer_def spawn_def Let_def split: if_splits)
qed

lemma failed_ports:
  assumes "sessionPorts mX = AList.update sid prt al" "usedPorts mX = insert prt U" "prt \<notin> U"
  shows "sessionPorts (terminateSession sid rmOk (updSession sid (\<lambda>s. s\<lparr>status := Error\<rparr>) mX))
           = AList.delete sid al \<and>
         usedPorts (terminateSession sid rmOk (updSession sid (\<lambda>s. s\<lparr>status := Error\<rparr>) mX)) = U \<and>
         map_of (sessions (terminateSession sid rmOk (updSession sid (\<lambda>s. s\<lparr>status := Error\<rparr>) mX))) sid = None"
proof -
  let ?m = "updSession sid (\<lambda>s. s\<lparr>status := Error\<rparr>) mX"
  have sp: "sessionPorts ?m = AList.update sid prt al"
    using assms(1) by (simp add: sessionPorts_updSession)
  then have "map_of (sessionPorts ?m) sid = Some prt" by (simp add: AList.update_conv')
  then obtain s where s: "map_of (sessions ?m) sid = Some s" "port s = prt"
    by (auto simp: map_of_sessionPorts)
  have 1: "sessionPorts (terminateSession sid rmOk ?m) = AList.delete sid al"
    by (simp add: sessionPorts_terminate sp AList.delete_update_same)
  have 2: "usedPorts (terminateSession sid rmOk ?m) = U"
    using s assms(2,3) by (simp add: usedPorts_terminate)
  have "map_of (sessionPorts (terminateSession sid rmOk ?m)) sid = None"
    unfolding 1 by (simp add: AList.delete_conv')
  then have 3: "map_of (sessions (terminateSession sid rmOk ?m)) sid = None"
    by (simp add: map_of_sessionPorts)
  from 1 2 3 show ?thesis by simp
qed

lemma createSession_ports:
  assumes "createSession uid p env m = (r, m')"
  shows "(\<exists>e. r = Inl e \<and> m' = m) \<or>
         (\<exists>prt. length (sessions m) < maxSessions \<and>
            scanPorts (usedPorts m) basePort (basePort + 1000) = Some prt \<and>
            ((\<exists>s. r = Inr s \<and> sessionPorts m' = AList.update (uuid env) prt (sessionPorts m) \<and>
                   usedPorts m' = insert prt (usedPorts m) \<and>
                   map_of (sessions m') (uuid env) = Some s \<and> port s = prt) \<or>
             (\<exists>e. r = Inl e \<and> sessionPorts m' = AList.delete (uuid env) (sessionPorts m) \<and>
                   usedPorts m' = usedPorts m \<and> map_of (sessions m') (uuid env) = None)))"
proof (cases "length (sessions m) \<ge> maxSessions")
  case True
  then show ?thesis using assms by (auto simp add: createSession_def)
next
  case cap: False
  show ?thesis
  proof (cases "scanPorts (usedPorts m) basePort (basePort + 1000)")
    case None
    then show ?thesis using assms cap by (auto simp add: createSession_def getNextAvailablePort_def)
  next
    case (Some prt)
    define sid where "sid = uuid env"
    define session where "session = newSession uid env prt"
    define m1 where "m1 = m\<lparr>sessions := AList.update sid session (sessions m),
                          usedPorts := insert prt (usedPorts m)\<rparr>"
    have fresh: "prt \<notin> usedPorts m" using scanPorts_Some[OF Some] by simp
    have sp1: "sessionPorts m1 = AList.update sid prt (sessionPorts m)"
      by (simp add: m1_def sessionPorts_def sessionPorts_update session_def newSession_def)
    have up1: "usedPorts m1 = insert prt (usedPorts m)" by (simp add: m1_def)
    obtain r2 m2 where i: "initializeFlutterProject session p env m1 = (r2, m2)" by force
    have sp2: "sessionPorts m2 = sessionPorts m1" and up2: "usedPorts m2 = usedPorts m1"
      using initializeFlutterProject_frame[OF i] by (simp_all add: sessionPorts_def)
    obtain r3 m3 where st: "startFlutterServer sid env m2 = (r3, m3)" by force
    have sp3: "sessionPorts m3 = sessionPorts m1" and up3: "usedPorts m3 = usedPorts m1"
      using startFlutterServer_ports[OF st] sp2 up2 by simp_all
    have unf: "createSession uid p env m =
       (case initializeFlutterProject session p env m1 of
          (Some e, m2) \<Rightarrow> (Inl e, terminateSession sid (removeOk env) (updSession sid (\<lambda>s. s\<lparr>status := Error\<rparr>) m2))
        | (None, m2) \<Rightarrow>
           (case startFlutterServer sid env m2 of
              (Some e, m3) \<Rightarrow> (Inl e, terminateSession sid (removeOk env) (updSession sid (\<lambda>s. s\<lparr>status := Error\<rparr>) m3))
            | (None, m3) \<Rightarrow>
               let m4 = updSession sid (\<lambda>s. s\<lparr>status := Ready\<rparr>) m3
               in (case map_of (sessions m4) sid of
                     Some s \<Rightarrow> (Inr s, m4)
                   | None \<Rightarrow> (Inr (session\<lparr>status := Ready\<rparr>), m4))))"
      using cap Some
      unfolding createSession_def getNextAvailablePort_def Let_def sid_def session_def m1_def
        createSessionCatch_def
      by simp
    note found = \<open>scanPorts (usedPorts m) basePort (basePort + 1000) = Some prt\<close>
    show ?thesis
    proof (cases r2)
      case (Some e)
      then have "r = Inl e" "m' = terminateSession sid (removeOk env) (updSession sid (\<lambda>s. s\<lparr>status := Error\<rparr>) m2)"
        using unf assms i by simp_all
      with failed_ports[of m2 sid prt "sessionPorts m" "usedPorts m" "removeOk env"] sp1 sp2 up1 up2 fresh
      show ?thesis using cap found
        by (auto simp: sid_def)
    next
      case None
      note r2 = None
      show ?thesis
      proof (cases r3)
        case (Some e)
        then have "r = Inl e" "m' = terminateSession sid (removeOk env) (updSession sid (\<lambda>s. s\<lparr>status := Error\<rparr>) m3)"
          using unf assms i st r2 by simp_all
        with failed_ports[of m3 sid prt "sessionPorts m" "usedPorts m" "removeOk env"] sp1 sp3 up1 up3 fresh
        show ?thesis using cap found
          by (auto simp: sid_def)
      next
        case None
        let ?m4 = "updSession sid (\<lambda>s. s\<lparr>status := Ready\<rparr>) m3"
        have sp4: "sessionPorts ?m4 = AList.update sid prt (sessionPorts m)"
          using sp3 sp1 by (simp add: sessionPorts_updSession)
        then have "map_of (sessionPorts ?m4) sid = Some prt" by (simp add: AList.update_conv')
        then obtain s where s: "map_of (sessions ?m4) sid = Some s" "port s = prt"
          by (auto simp: map_of_sessionPorts)
        from unf assms i st r2 None s have "r = Inr s" "m' = ?m4" by (simp_all add: Let_def)
        with sp4 s up3 up1 cap found
        show ?thesis by (auto simp: sid_def)
      qed
    qed
  qed
qed

lemma sessionPorts_files [simp]: "sessionPorts (m\<lparr>files := fs\<rparr>) = sessionPorts m"
  by (simp add: sessionPorts_def)

lemma sessionPorts_graceTimers [simp]: "sessionPorts (m\<lparr>graceTimers := ts\<rparr>) = sessionPorts m"
  by (simp add: sessionPorts_def)

lemma portsInv_cong:
  "sessionPorts m' = sessionPorts m \<Longrightarrow> usedPorts m' = usedPorts m \<Longrightarrow> portsInv m \<Longrightarrow> portsInv m'"
  by (simp add: portsInv_def)

lemma portsInv_createSession:
  assumes "portsInv m" "createSession uid p env m = (r, m')"
  shows "portsInv m'"
proof -
  from createSession_ports[OF assms(2)]
  consider (same) "m' = m"
    | (ok) prt where "scanPorts (usedPorts m) basePort (basePort + 1000) = Some prt"
        "sessionPorts m' = AList.update (uuid env) prt (sessionPorts m)"
        "usedPorts m' = insert prt (usedPorts m)"
    | (failed) "sessionPorts m' = AList.delete (uuid env) (sessionPorts m)" "usedPorts m' = usedPorts m"
    by blast
  then show ?thesis
  proof cases
    case same
    then show ?thesis using assms(1) by simp
  next
    case ok
    have "prt \<notin> usedPorts m" using scanPorts_Some[OF ok(1)] by simp
    then have "prt \<notin> snd ` set (sessionPorts m)" using assms(1) by (auto simp: portsInv_def)
    from alist_update_fresh[OF _ _ this, of "uuid env"] assms(1)
    show ?thesis unfolding portsInv_def ok(2,3) by auto
  next
    case failed
    show ?thesis using assms(1) unfolding portsInv_def failed
      by (auto simp: AList.distinct_delete AList.delete_eq distinct_map_filter)
  qed
qed

lemma hotReload_ports:
  "sessionPorts (snd (hotReload sid m)) = sessionPorts m \<and> usedPorts (snd (hotReload sid m)) = usedPorts m"
  by (simp add: hotReload_def split: option.splits)

lemma updateSessionCode_ports:
  "sessionPorts (snd (updateSessionCode sid prompt env m)) = sessionPorts m \<and>
   usedPorts (snd (updateSessionCode sid prompt env m)) = usedPorts m"
proof (cases "map_of (sessions m) sid")
  case None
  then show ?thesis by (simp add: updateSessionCode_def)
next
  case (Some session)
  let ?m1 = "updSession sid (\<lambda>s. s\<lparr>lastActive := now env\<rparr>) m"
  have 1: "sessionPorts ?m1 = sessionPorts m" "usedPorts ?m1 = usedPorts m"
    by (simp_all add: sessionPorts_updSession)
  have 2: "\<And>fs. sessionPorts (snd (hotReload sid (?m1\<lparr>files := fs\<rparr>))) = sessionPorts m"
          "\<And>fs. usedPorts (snd (hotReload sid (?m1\<lparr>files := fs\<rparr>))) = usedPorts m"
    using hotReload_ports 1 by simp_all
  show ?thesis
    using Some 1 2
    by (auto simp: updateSessionCode_def Let_def split: option.splits prod.splits)
       (metis snd_conv)+
qed

lemma getSession_ports:
  "sessionPorts (snd (getSession sid t m)) = sessionPorts m \<and>
   usedPorts (snd (getSession sid t m)) = usedPorts m"
  by (simp add: getSession_def sessionPorts_updSession split: option.splits)

lemma postSessionCode_ports:
  "sessionPorts (snd (postSessionCode sid prompt env m)) = sessionPorts m \<and>
   usedPorts (snd (postSessionCode sid prompt env m)) = usedPorts m"
proof -
  obtain r m1 where g: "getSession sid (now env) m = (r, m1)" by force
  with getSession_ports[of sid "now env" m]
  have 1: "sessionPorts m1 = sessionPorts m" "usedPorts m1 = usedPorts m" by simp_all
  show ?thesis
    using g 1 updateSessionCode_ports[of sid prompt env m1]
    by (auto simp: postSessionCode_def split: option.splits)
qed

lemma runGraceTimer_ports:
  "sessionPorts (runGraceTimer m) = sessionPorts m \<and> usedPorts (runGraceTimer m) = usedPorts m"
  by (simp add: runGraceTimer_def graceTimeout_def split: list.splits)

lemma portsInv_cleanupLoop: "portsInv m \<Longrightarrow> portsInv (cleanupLoop ks t rm m)"
  by (induction ks arbitrary: m) (auto simp: portsInv_terminate split: option.splits)

lemma portsInv_fold_terminate:
  "portsInv m \<Longrightarrow> portsInv (fold (\<lambda>sid. terminateSession sid (rm sid)) ks m)"
  by (induction ks arbitrary: m) (auto simp: portsInv_terminate)

lemma portsInv_step:
  assumes "whole operation" "portsInv m"
  shows "portsInv (step operation m)"
proof (cases operation)
  case (CreateSession uid p env)
  then show ?thesis
    using assms(2) portsInv_createSession[of m uid p env "fst (createSession uid p env m)" "snd (createSession uid p env m)"]
    by simp
next
  case (UpdateSessionCode sid p env)
  then show ?thesis using assms(2) updateSessionCode_ports[of sid p env m]
    by (simp add: portsInv_cong)
next
  case (PostSessionCode sid p env)
  then show ?thesis using assms(2) postSessionCode_ports[of sid p env m]
    by (simp add: portsInv_cong)
next
  case (GetSession sid t)
  then show ?thesis using assms(2) getSession_ports[of sid t m]
    by (simp add: portsInv_cong)
next
  case GraceTimer
  then show ?thesis using assms(2) runGraceTimer_ports[of m]
    by (simp add: portsInv_cong)
next
  case (TerminateBegin sid)
  then show ?thesis using assms(1) by simp
next
  case (TerminateEnd i rmOk)
  then show ?thesis using assms(1) by simp
qed (use assms(2) in \<open>simp_all add: portsInv_terminate portsInv_cong portsInv_cleanupLoop cleanupInactive_def
       shutdown_def portsInv_fold_terminate\<close>)

lemma portsInv_initial: "portsInv initialManager"
  by (simp add: portsInv_def sessionPorts_def initialManager_def)

lemma portsInv_run: "list_all whole ops \<Longrightarrow> portsInv m \<Longrightarrow> portsInv (run ops m)"
  unfolding run_def by (induction ops arbitrary: m) (simp_all add: portsInv_step)

subsection \<open>The claims\<close>

text \<open>
  C5. Capacity bound: when the map holds 50 sessions (or more), \<^verbatim>\<open>createSession\<close>
  fails with \<open>CapacityExceeded\<close> and the whole state of the manager, so the session
  records, their number and the held ports, is as before.
\<close>

theorem createSession_capacity:
  "length (sessions m) \<ge> 50 \<Longrightarrow> createSession uid prompt env m = (Inl CapacityExceeded, m)"
  by (simp add: createSession_def maxSessions_def)

theorem createSession_capacity_witness:
  "length (sessions fullManager) \<ge> 50 \<and>
   createSession None (Some ''a counter app'') (exampleEnv ''z'') fullManager
     = (Inl CapacityExceeded, fullManager)"
proof -
  have h: "length (sessions fullManager) \<ge> 50" by (simp add: fullManager_def)
  show ?thesis using h createSession_capacity [OF h] by simp
qed

text \<open>
  Calls that do not overlap. After every sequence of whole calls from the initial
  manager no two live sessions hold the same port; a successful \<^verbatim>\<open>createSession\<close>
  gives the session the lowest port of the range 8080 to 9079 that is not held, and that
  no live session has; \<^verbatim>\<open>terminateSession\<close> takes the port of the terminated
  session out of the held ports, and the ports of the sessions that remain stay held.
\<close>

lemma port_exclusivity_whole_calls:
  assumes "list_all whole ops" "m = run ops initialManager"
  shows "portExclusive m \<and>
         (fst (createSession uid prompt env m) = Inr s \<longrightarrow>
            basePort \<le> port s \<and> port s < basePort + 1000 \<and>
            port s \<notin> usedPorts m \<and> port s \<notin> snd ` set (sessionPorts m) \<and>
            (\<forall>p. basePort \<le> p \<and> p < port s \<longrightarrow> p \<in> usedPorts m) \<and>
            usedPorts (snd (createSession uid prompt env m)) = insert (port s) (usedPorts m)) \<and>
         (map_of (sessions m) sid = Some t \<longrightarrow>
            port t \<notin> usedPorts (terminateSession sid rmOk m) \<and>
            snd ` set (sessionPorts (terminateSession sid rmOk m)) \<subseteq> usedPorts (terminateSession sid rmOk m))"
proof -
  have inv: "portsInv m" using assms portsInv_run[OF assms(1) portsInv_initial] by simp
  have 1: "portExclusive m" using inv by (simp add: portExclusive_def portsInv_def)
  have 2: "basePort \<le> port s \<and> port s < basePort + 1000 \<and>
            port s \<notin> usedPorts m \<and> port s \<notin> snd ` set (sessionPorts m) \<and>
            (\<forall>p. basePort \<le> p \<and> p < port s \<longrightarrow> p \<in> usedPorts m) \<and>
            usedPorts (snd (createSession uid prompt env m)) = insert (port s) (usedPorts m)"
    if a: "fst (createSession uid prompt env m) = Inr s"
  proof -
    obtain r m' where c: "createSession uid prompt env m = (r, m')" by force
    with a have r: "r = Inr s" by simp
    from createSession_ports[OF c] r
    have sc: "scanPorts (usedPorts m) basePort (basePort + 1000) = Some (port s)"
      and up: "usedPorts m' = insert (port s) (usedPorts m)"
      by auto
    have "port s \<notin> snd ` set (sessionPorts m)"
      using scanPorts_Some[OF sc] inv by (auto simp: portsInv_def)
    then show ?thesis using scanPorts_Some[OF sc] up c by simp
  qed
  have 3: "port t \<notin> usedPorts (terminateSession sid rmOk m) \<and>
            snd ` set (sessionPorts (terminateSession sid rmOk m)) \<subseteq> usedPorts (terminateSession sid rmOk m)"
    if "map_of (sessions m) sid = Some t"
    using that portsInv_terminate[OF inv, of sid rmOk]
    by (simp add: usedPorts_terminate portsInv_def)
  from 1 2 3 show ?thesis by blast
qed

lemmas race_defs = eval_defs terminateSessionBegin_def terminateSessionEnd_def

text \<open>
  C1. Port exclusivity, evaluated on two calls of \<^verbatim>\<open>terminateSession\<close> with the same
  id that overlap. Session \<open>a\<close> is created on port 8080; two calls
  \<^verbatim>\<open>terminateSession('a')\<close> reach the \<^verbatim>\<open>await\<close> before either resumes, so both
  have found the record; the first resumes and releases port 8080, which the new session
  \<open>b\<close> gets; the second resumes and deletes \<^verbatim>\<open>session.port\<close>, 8080 again, from
  \<^verbatim>\<open>usedPorts\<close>; the next \<^verbatim>\<open>createSession\<close> finds 8080 free and gives it to session
  \<open>c\<close>. The live sessions \<open>b\<close> and \<open>c\<close>, both ready, hold the same port.
\<close>

theorem overlapping_terminate_shares_port:
  "map (\<lambda>(k, s). (k, port s, status s)) (sessions (run overlapOps initialManager))
     = [(''b'', 8080, Ready), (''c'', 8080, Ready)] \<and>
   sessionPorts (run overlapOps initialManager) = [(''b'', 8080), (''c'', 8080)] \<and>
   \<not> portExclusive (run overlapOps initialManager)"
  by (simp add: overlapOps_def exampleEnv_def race_defs portExclusive_def)

lemma terminateSession_unknown:
  "map_of (sessions m) sid = None \<Longrightarrow> terminateSession sid rmOk m = m"
  by (simp add: terminateSession_unfold)

lemma terminateSession_removes:
  "map_of (sessions (terminateSession sid rmOk m)) sid = None"
proof -
  have "map_of (sessionPorts (terminateSession sid rmOk m)) sid = None"
    by (simp add: sessionPorts_terminate AList.delete_conv')
  then show ?thesis by (simp add: map_of_sessionPorts)
qed

text \<open>
  Calls that do not overlap. \<^verbatim>\<open>terminateSession\<close> has no error result (the only
  failure inside it, that of removing the directory, is caught). For an id that is not
  in the map a whole call changes nothing; a second whole call with the same id changes
  nothing after the first; and after a whole call the live sessions are the others, each
  with its port still held.
\<close>

lemma terminateSession_twice_whole:
  assumes "list_all whole ops" "m = run ops initialManager"
  shows "(map_of (sessions m) sid = None \<longrightarrow> terminateSession sid rmOk m = m) \<and>
         terminateSession sid rmOk' (terminateSession sid rmOk m) = terminateSession sid rmOk m \<and>
         sessionPorts (terminateSession sid rmOk m) = AList.delete sid (sessionPorts m) \<and>
         snd ` set (sessionPorts (terminateSession sid rmOk m)) \<subseteq> usedPorts (terminateSession sid rmOk m)"
proof -
  have inv: "portsInv m" using assms portsInv_run[OF assms(1) portsInv_initial] by simp
  have "portsInv (terminateSession sid rmOk m)" using inv by (rule portsInv_terminate)
  then have "snd ` set (sessionPorts (terminateSession sid rmOk m)) \<subseteq> usedPorts (terminateSession sid rmOk m)"
    by (simp add: portsInv_def)
  then show ?thesis
    by (simp add: terminateSession_unknown terminateSession_removes sessionPorts_terminate)
qed

text \<open>
  C4. Idempotent termination, evaluated on a second call of \<^verbatim>\<open>terminateSession\<close>
  with the same id that begins during the \<^verbatim>\<open>await\<close> of the first. In
  \<open>overlappedManager\<close> the first call has ended, the record of \<open>a\<close> is gone, the live
  session \<open>b\<close> holds port 8080, and the second call is still suspended with the session
  object of \<open>a\<close>. When it resumes it does not look at the map again: it deletes 8080
  from \<^verbatim>\<open>usedPorts\<close>, the port of a live session, released a second time.
\<close>

theorem second_terminate_releases_held_port:
  "suspended overlappedManager = [(''a'', sessionA)] \<and>
   map_of (sessions overlappedManager) ''a'' = None \<and>
   sessionPorts overlappedManager = [(''b'', 8080)] \<and>
   usedPorts overlappedManager = {8080} \<and>
   sessionPorts (step (TerminateEnd 0 True) overlappedManager) = [(''b'', 8080)] \<and>
   usedPorts (step (TerminateEnd 0 True) overlappedManager) = {}"
  by (simp add: overlappedManager_def sessionA_def exampleEnv_def race_defs showNat.simps digitChar_def)

lemma lookup_updSession:
  "map_of (sessions (updSession sid f m)) k =
     (if k = sid then map_option f (map_of (sessions m) k) else map_of (sessions m) k)"
  by (auto simp: updSession_def AList.map_of_map_entry split: option.splits)

lemma lookup_processExit:
  "map_of (sessions (processExit h m)) k =
     map_option (\<lambda>s. if flutterProcess s = Some h then s\<lparr>status := Terminated\<rparr> else s)
       (map_of (sessions m) k)"
proof -
  have "\<And>al::(string \<times> FlutterSession) list. map_of (map (\<lambda>(k, s). (k, if flutterProcess s = Some h then s\<lparr>status := Terminated\<rparr> else s)) al) k =
     map_option (\<lambda>s. if flutterProcess s = Some h then s\<lparr>status := Terminated\<rparr> else s) (map_of al k)"
    subgoal for al by (induction al) auto
    done
  then show ?thesis by (simp add: processExit_def)
qed

lemma procs_updSession [simp]: "procs (updSession sid f m) = procs m"
  by (simp add: updSession_def)

lemma graceTimers_updSession [simp]: "graceTimers (updSession sid f m) = graceTimers m"
  by (simp add: updSession_def)

lemma procs_processExit:
  "procs (processExit h m) = (if h < length (procs m) then (procs m)[h := (procs m ! h)\<lparr>exited := True\<rparr>] else procs m)"
  by (simp add: processExit_def updProc_def)

lemma graceTimers_processExit [simp]: "graceTimers (processExit h m) = graceTimers m"
  by (simp add: processExit_def updProc_def)

lemma files_updSession [simp]: "files (updSession sid f m) = files m"
  by (simp add: updSession_def)

lemma files_updProc [simp]: "files (updProc h f m) = files m"
  by (simp add: updProc_def)

lemma sessions_updProc [simp]: "sessions (updProc h f m) = sessions m"
  by (simp add: updProc_def)

lemma graceTimers_updProc [simp]: "graceTimers (updProc h f m) = graceTimers m"
  by (simp add: updProc_def)

lemma procs_updProc:
  "procs (updProc h f m) = (if h < length (procs m) then (procs m)[h := f (procs m ! h)] else procs m)"
  by (simp add: updProc_def)

lemma files_processExit [simp]: "files (processExit h m) = files m"
  by (simp add: processExit_def)

text \<open>What startFlutterServer leaves behind when the server does not come up.\<close>

lemma startFlutterServer_failed:
  assumes "server env \<noteq> MarkerSeen" "map_of (sessions m) sid = Some s0"
  shows "\<exists>m3 s3. startFlutterServer sid env m = (Some (if server env = SpawnError then StartProcessError else StartTimeout), m3) \<and>
           map_of (sessions m3) sid = Some s3 \<and> flutterProcess s3 = Some (length (procs m)) \<and>
           projectPath s3 = projectPath s0 \<and> port s3 = port s0 \<and>
           length (procs m3) = Suc (length (procs m)) \<and>
           killed (procs m3 ! length (procs m)) = False \<and>
           signals (procs m3 ! length (procs m)) = [] \<and>
           (exited (procs m3 ! length (procs m)) \<longleftrightarrow> server env \<noteq> NoMarker False) \<and>
           graceTimers m3 = graceTimers m \<and> files m3 = files m"
proof (cases "server env")
  case MarkerSeen
  then show ?thesis using assms by simp
next
  case (NoMarker e)
  then show ?thesis using assms
    by (cases e) (auto simp: startFlutterServer_def spawn_def Let_def lookup_updSession lookup_processExit
        procs_processExit newProcess_def nth_append updSession_def[of sid _ "m\<lparr>procs := procs m @ [newProcess]\<rparr>"])
next
  case SpawnError
  then show ?thesis using assms
    by (auto simp: startFlutterServer_def spawn_def Let_def lookup_updSession procs_updProc
        newProcess_def nth_append)
qed

lemma terminateSession_with_process:
  assumes "map_of (sessions m) sid = Some s" "flutterProcess s = Some h" "h < length (procs m)"
  shows "procs (terminateSession sid rmOk m) = (procs m)[h := kill SIGTERM (procs m ! h)] \<and>
         graceTimers (terminateSession sid rmOk m) = graceTimers m @ [h] \<and>
         usedPorts (terminateSession sid rmOk m) = usedPorts m - {port s} \<and>
         files (terminateSession sid rmOk m) = (if rmOk then removeTree (projectPath s) (files m) else files m)"
  using assms by (simp add: terminateSession_unfold Let_def procs_updProc)

lemma initializeFlutterProject_ok:
  "flutterCreate env \<noteq> None \<Longrightarrow> fst (initializeFlutterProject session prompt env m) = None"
  by (auto simp: initializeFlutterProject_def Let_def split: option.splits)

text \<open>
  What the failure path of \<^verbatim>\<open>createSession\<close> leaves behind. When the call gets as
  far as starting the server (it is below capacity, a port \<open>prt\<close> is free,
  \<^verbatim>\<open>flutter create\<close> succeeds) and the server does not come up, by the 120000 ms timer
  or by the \<^verbatim>\<open>'error'\<close> event, the call returns the error, the held ports are as
  before the call, so the port is free again, the map has no record for the id and
  \<^verbatim>\<open>getSession\<close> finds none. A spawned process that is still running has received
  SIGTERM, and nothing else, and its grace timer is pending.
\<close>

lemma createSession_rollback_state:
  assumes "length (sessions m) < maxSessions"
    and "getNextAvailablePort m = Inr prt"
    and "flutterCreate env \<noteq> None"
    and "server env \<noteq> MarkerSeen"
    and "createSession uid prompt env m = (r, m')"
  shows "r = Inl (if server env = SpawnError then StartProcessError else StartTimeout) \<and>
         prt \<notin> usedPorts m' \<and> usedPorts m' = usedPorts m \<and>
         map_of (sessions m') (uuid env) = None \<and>
         fst (getSession (uuid env) t m') = None \<and>
         length (procs m') = Suc (length (procs m)) \<and>
         (if server env = NoMarker False
          then \<not> exited (procs m' ! length (procs m)) \<and> killed (procs m' ! length (procs m)) \<and>
               signals (procs m' ! length (procs m)) = [SIGTERM] \<and>
               graceTimers m' = graceTimers m @ [length (procs m)]
          else exited (procs m' ! length (procs m)))"
proof -
  define sid where "sid = uuid env"
  define session where "session = newSession uid env prt"
  define m1 where "m1 = m\<lparr>sessions := AList.update sid session (sessions m),
                          usedPorts := insert prt (usedPorts m)\<rparr>"
  have sc: "scanPorts (usedPorts m) basePort (basePort + 1000) = Some prt"
    using assms(2) by (simp add: getNextAvailablePort_def split: option.splits)
  have fresh: "prt \<notin> usedPorts m" using scanPorts_Some[OF sc] by simp
  obtain m2 where i: "initializeFlutterProject session prompt env m1 = (None, m2)"
    using initializeFlutterProject_ok[OF assms(3), of session prompt m1]
    by (cases "initializeFlutterProject session prompt env m1") simp
  note fr = initializeFlutterProject_frame[OF i]
  have l2: "map_of (sessions m2) sid = Some session"
    using fr by (simp add: m1_def AList.update_conv')
  from startFlutterServer_failed[OF assms(4) l2]
  obtain m3 s3 where st: "startFlutterServer sid env m2 = (Some (if server env = SpawnError then StartProcessError else StartTimeout), m3)"
    and l3: "map_of (sessions m3) sid = Some s3" and fp: "flutterProcess s3 = Some (length (procs m2))"
    and pt: "port s3 = port session"
    and len: "length (procs m3) = Suc (length (procs m2))"
    and k: "killed (procs m3 ! length (procs m2)) = False"
    and sg: "signals (procs m3 ! length (procs m2)) = []"
    and ex: "exited (procs m3 ! length (procs m2)) \<longleftrightarrow> server env \<noteq> NoMarker False"
    and gt: "graceTimers m3 = graceTimers m2"
    by blast
  have pm: "procs m2 = procs m" "graceTimers m2 = graceTimers m" using fr by (simp_all add: m1_def)
  have up3: "usedPorts m3 = insert prt (usedPorts m)"
    using startFlutterServer_ports[OF st] fr by (simp add: m1_def)
  let ?m3e = "updSession sid (\<lambda>s. s\<lparr>status := Error\<rparr>) m3"
  have l3e: "map_of (sessions ?m3e) sid = Some (s3\<lparr>status := Error\<rparr>)"
    using l3 by (simp add: lookup_updSession)
  have res: "(r, m') = (Inl (if server env = SpawnError then StartProcessError else StartTimeout),
                terminateSession sid (removeOk env) ?m3e)"
    using assms(1,5) sc i st
    unfolding createSession_def getNextAvailablePort_def Let_def sid_def session_def m1_def
      createSessionCatch_def
    by simp
  then have r: "r = Inl (if server env = SpawnError then StartProcessError else StartTimeout)"
    and m': "m' = terminateSession sid (removeOk env) ?m3e" by simp_all
  have h: "length (procs m) < length (procs ?m3e)" using len pm by simp
  note tp = terminateSession_with_process[OF l3e, of "length (procs m)" "removeOk env"]
  have T: "procs m' = (procs m3)[length (procs m) := kill SIGTERM (procs m3 ! length (procs m))]"
          "graceTimers m' = graceTimers m @ [length (procs m)]"
          "usedPorts m' = usedPorts m3 - {port s3}"
    using tp fp pm h gt unfolding m' by simp_all
  have u: "usedPorts m' = usedPorts m"
    using T(3) up3 pt fresh by (simp add: session_def newSession_def)
  have gone: "map_of (sessions m') sid = None" unfolding m' by (rule terminateSession_removes)
  have gs: "fst (getSession sid t m') = None" using gone by (simp add: getSession_def)
  have lp: "length (procs m') = Suc (length (procs m))" using T(1) len pm by simp
  have P: "procs m' ! length (procs m) = kill SIGTERM (procs m3 ! length (procs m))"
    using T(1) len pm by simp
  show ?thesis
    using r u fresh gone gs lp P k sg ex pm T(2)
    by (auto simp: sid_def kill_def)
qed

lemmas eval_defs2 = eval_defs processExit_def hotReload_def updateSessionCode_def getSession_def
  postSessionCode_def runGraceTimer_def graceTimeout_def mainDartPathOf_def installDependencies_def

text \<open>
  C2. Rollback of \<^verbatim>\<open>createSession\<close>, evaluated on a server that never prints the
  marker, keeps running and ignores SIGTERM. The call returns the timeout error, port
  8080 is free again and no record remains; the spawned process has received SIGTERM and
  its grace timer is pending. When that timer fires \<^verbatim>\<open>killed\<close> is true already, no
  SIGKILL is sent, and the process is still running: it has not been killed.
\<close>

theorem rollback_leaves_process_running:
  "fst (createSession None None silentEnv initialManager) = Inl StartTimeout \<and>
   graceTimers (snd (createSession None None silentEnv initialManager)) = [0] \<and>
   sessions (run rollbackOps initialManager) = [] \<and>
   usedPorts (run rollbackOps initialManager) = {} \<and>
   procs (run rollbackOps initialManager) =
     [\<lparr>exited = False, killed = True, signals = [SIGTERM], stdin = []\<rparr>] \<and>
   graceTimers (run rollbackOps initialManager) = []"
  by (simp add: rollbackOps_def silentEnv_def exampleEnv_def eval_defs2)

text \<open>
  C7. Two-phase stop, evaluated on a process that ignores SIGTERM: after
  \<^verbatim>\<open>terminateSession\<close> and the 5000 ms timer the process is still running and has
  received SIGTERM only. SIGTERM has set \<^verbatim>\<open>killed\<close>, so the timer's test
  \<^verbatim>\<open>!session.flutterProcess.killed\<close> is false and no SIGKILL is sent.
\<close>

theorem grace_timer_sends_no_SIGKILL:
  "procs (run stubbornOps initialManager) =
     [\<lparr>exited = False, killed = True, signals = [SIGTERM], stdin = []\<rparr>] \<and>
   graceTimers (run stubbornOps initialManager) = [] \<and>
   sessions (run stubbornOps initialManager) = []"
  by (simp add: stubbornOps_def exampleEnv_def eval_defs2)

lemma lookup_terminate_other:
  "k \<noteq> sid \<Longrightarrow> map_of (sessions (terminateSession k rmOk m)) sid = map_of (sessions m) sid"
  by (simp add: terminateSession_unfold Let_def updProc_def split: option.splits)

lemma cleanupLoop_keeps_recent:
  assumes "map_of (sessions m) sid = Some s" "t - lastActive s \<le> inactiveThreshold"
  shows "map_of (sessions (cleanupLoop ks t rm m)) sid = Some s"
  using assms
proof (induction ks arbitrary: m)
  case Nil
  then show ?case by simp
next
  case (Cons k ks)
  let ?m' = "(case map_of (sessions m) k of
          None \<Rightarrow> m
        | Some session \<Rightarrow>
            if t - lastActive session > inactiveThreshold
            then terminateSession k (rm k) m else m)"
  have "map_of (sessions ?m') sid = Some s"
  proof (cases "k = sid")
    case True
    then show ?thesis using Cons.prems by simp
  next
    case False
    then show ?thesis using Cons.prems(1) by (simp add: lookup_terminate_other split: option.splits)
  qed
  from Cons.IH[OF this Cons.prems(2)] show ?case by simp
qed

text \<open>
  C10. \<^verbatim>\<open>getSession\<close> is not a pure read: for an id that is in the map it sets
  \<^verbatim>\<open>lastActive\<close> of the session to the current time \<open>t\<close>, in the result and in the
  map; a cleanup at a time \<open>t'\<close> at most the threshold of one hour after \<open>t\<close> then
  keeps the session, whatever its \<^verbatim>\<open>lastActive\<close> was before the read.
\<close>

theorem getSession_touches:
  assumes "map_of (sessions m) sid = Some s"
  shows "getSession sid t m = (Some (s\<lparr>lastActive := t\<rparr>), updSession sid (\<lambda>s. s\<lparr>lastActive := t\<rparr>) m) \<and>
         map_of (sessions (snd (getSession sid t m))) sid = Some (s\<lparr>lastActive := t\<rparr>) \<and>
         (t' - t \<le> inactiveThreshold \<longrightarrow>
            map_of (sessions (cleanupInactive t' rm (snd (getSession sid t m)))) sid
              = Some (s\<lparr>lastActive := t\<rparr>))"
proof -
  have 1: "getSession sid t m = (Some (s\<lparr>lastActive := t\<rparr>), updSession sid (\<lambda>s. s\<lparr>lastActive := t\<rparr>) m)"
    using assms by (simp add: getSession_def)
  have 2: "map_of (sessions (snd (getSession sid t m))) sid = Some (s\<lparr>lastActive := t\<rparr>)"
    using assms by (simp add: 1 lookup_updSession)
  have 3: "map_of (sessions (cleanupInactive t' rm (snd (getSession sid t m)))) sid
              = Some (s\<lparr>lastActive := t\<rparr>)" if "t' - t \<le> inactiveThreshold"
    unfolding cleanupInactive_def
    by (rule cleanupLoop_keeps_recent[OF 2]) (use that in simp)
  from 1 2 3 show ?thesis by blast
qed

theorem getSession_touches_witness:
  "map_of (sessions idleManager) ''a'' = Some sessionA \<and>
   map_of (sessions (cleanupInactive 5000000 (\<lambda>_. True) idleManager)) ''a'' = None \<and>
   map_of (sessions (snd (getSession ''a'' 4999000 idleManager))) ''a'' = Some (sessionA\<lparr>lastActive := 4999000\<rparr>) \<and>
   map_of (sessions (cleanupInactive 5000000 (\<lambda>_. True) (snd (getSession ''a'' 4999000 idleManager)))) ''a''
     = Some (sessionA\<lparr>lastActive := 4999000\<rparr>)"
proof -
  have a: "map_of (sessions idleManager) ''a'' = Some sessionA"
    by (simp add: idleManager_def sessionA_def exampleEnv_def eval_defs2 showNat.simps digitChar_def)
  have k: "sessions idleManager = [(''a'', sessionA)]"
    by (simp add: idleManager_def sessionA_def exampleEnv_def eval_defs2 showNat.simps digitChar_def)
  have b: "map_of (sessions (cleanupInactive 5000000 (\<lambda>_. True) idleManager)) ''a'' = None"
    by (simp add: cleanupInactive_def k inactiveThreshold_def terminateSession_removes)
       (simp add: sessionA_def terminateSession_removes)
  have c: "(5000000::int) - 4999000 \<le> inactiveThreshold" by (simp add: inactiveThreshold_def)
  note T = getSession_touches[OF a, of 4999000 5000000 "\<lambda>_. True"]
  from T c a b show ?thesis by blast
qed

lemma stopped_sessions:
  "sessions stoppedManager = [(''a'', sessionA\<lparr>status := Terminated\<rparr>)]"
  by (simp add: stoppedManager_def projectEnv_def sessionA_def exampleEnv_def eval_defs2 showNat.simps digitChar_def)

lemma stopped_files:
  "files stoppedManager ''temp/sessions/a/lib/main.dart'' = Some ''void main() {}''"
  by (simp add: stoppedManager_def projectEnv_def exampleEnv_def eval_defs2)

lemma stopped_procs:
  "procs stoppedManager = [\<lparr>exited = True, killed = False, signals = [], stdin = []\<rparr>]"
  by (simp add: stoppedManager_def projectEnv_def exampleEnv_def eval_defs2)

text \<open>
  C8, as stated, fails on a session whose status is not \<^verbatim>\<open>'ready'\<close>:
  \<^verbatim>\<open>updateSessionCode\<close> has no status check, so it sets \<^verbatim>\<open>lastActive\<close>, rewrites
  \<^verbatim>\<open>lib/main.dart\<close> and returns success; the route handler that calls it does answer
  \<^verbatim>\<open>'Session not ready'\<close>, but its lookup through \<^verbatim>\<open>getSession\<close> has set
  \<^verbatim>\<open>lastActive\<close> by then.
\<close>

theorem updateCode_not_ready_counterexample:
  "map_of (sessions stoppedManager) ''a'' = Some (sessionA\<lparr>status := Terminated\<rparr>) \<and>
   fst (updateSessionCode ''a'' ''add a button'' updateEnv stoppedManager)
     = Inr \<lparr>updateSuccess = True, updateFiles = None\<rparr> \<and>
   map_of (sessions (snd (updateSessionCode ''a'' ''add a button'' updateEnv stoppedManager))) ''a''
     = Some (sessionA\<lparr>status := Terminated, lastActive := 2000\<rparr>) \<and>
   files (snd (updateSessionCode ''a'' ''add a button'' updateEnv stoppedManager)) ''temp/sessions/a/lib/main.dart''
     = Some ''void main() { run(); }'' \<and>
   fst (postSessionCode ''a'' ''add a button'' updateEnv stoppedManager) = Inl NotReady \<and>
   map_of (sessions (snd (postSessionCode ''a'' ''add a button'' updateEnv stoppedManager))) ''a''
     = Some (sessionA\<lparr>status := Terminated, lastActive := 2000\<rparr>)"
  by (simp add: updateSessionCode_def postSessionCode_def getSession_def stopped_sessions stopped_files
      stopped_procs updateEnv_def exampleEnv_def sessionA_def updSession_def mainDartPathOf_def pathJoin_def normalizePath_def
      installDependencies_def hotReload_def writeFile_def updProc_def Let_def)

text \<open>
  The status of a session has no part in \<^verbatim>\<open>updateSessionCode\<close>: a call on a state
  in which the status of the session has been set to any value first gives the same
  result, and the same state but for that status.
\<close>

lemma map_entry_absent: "map_of al k = None \<Longrightarrow> AList.map_entry k f al = al"
  by (induction al) auto

lemma map_entry_twice: "AList.map_entry k f (AList.map_entry k g al) = AList.map_entry k (f \<circ> g) al"
  by (induction al) auto

lemma updSession_twice: "updSession sid f (updSession sid g m) = updSession sid (f \<circ> g) m"
  by (simp add: updSession_def map_entry_twice)

lemma updSession_absent: "map_of (sessions m) sid = None \<Longrightarrow> updSession sid f m = m"
  by (simp add: updSession_def map_entry_absent)

lemma status_lastActive_commute:
  "(\<lambda>s. s\<lparr>lastActive := t\<rparr>) \<circ> (\<lambda>s. s\<lparr>status := st\<rparr>) =
   (\<lambda>s. s\<lparr>status := st\<rparr>) \<circ> (\<lambda>s::FlutterSession. s\<lparr>lastActive := t\<rparr>)"
  by (rule ext) simp

lemma updSession_files: "updSession sid f (m\<lparr>files := fs\<rparr>) = (updSession sid f m)\<lparr>files := fs\<rparr>"
  by (simp add: updSession_def)

lemma updSession_updProc: "updSession sid f (updProc h g m) = updProc h g (updSession sid f m)"
  by (simp add: updSession_def updProc_def)

lemma hotReload_status_blind:
  "hotReload sid (updSession sid (\<lambda>s. s\<lparr>status := st\<rparr>) m) =
     (fst (hotReload sid m), updSession sid (\<lambda>s. s\<lparr>status := st\<rparr>) (snd (hotReload sid m)))"
  by (auto simp: hotReload_def lookup_updSession updSession_updProc split: option.splits)

lemma updateSessionCode_status_blind:
  "updateSessionCode sid prompt env (updSession sid (\<lambda>s. s\<lparr>status := st\<rparr>) m) =
     (fst (updateSessionCode sid prompt env m),
      updSession sid (\<lambda>s. s\<lparr>status := st\<rparr>) (snd (updateSessionCode sid prompt env m)))"
proof (cases "map_of (sessions m) sid")
  case None
  then show ?thesis by (simp add: updateSessionCode_def updSession_absent)
next
  case (Some s)
  let ?u = "updSession sid (\<lambda>s. s\<lparr>status := st\<rparr>)"
  let ?m1 = "updSession sid (\<lambda>s. s\<lparr>lastActive := now env\<rparr>) m"
  have l: "map_of (sessions (?u m)) sid = Some (s\<lparr>status := st\<rparr>)"
    using Some by (simp add: lookup_updSession)
  have c: "updSession sid (\<lambda>s. s\<lparr>lastActive := now env\<rparr>) (?u m) = ?u ?m1"
    by (simp add: updSession_twice status_lastActive_commute)
  have h: "\<And>fs. hotReload sid ((?u ?m1)\<lparr>files := fs\<rparr>) =
             (fst (hotReload sid (?m1\<lparr>files := fs\<rparr>)), ?u (snd (hotReload sid (?m1\<lparr>files := fs\<rparr>))))"
    using hotReload_status_blind[of sid st] by (simp add: updSession_files[symmetric])
  show ?thesis
    unfolding updateSessionCode_def Let_def l Some c
    by (simp add: h updSession_files split: option.splits prod.splits)
qed

lemma updateSessionCode_never_NotReady:
  "fst (updateSessionCode sid prompt env m) \<noteq> Inl NotReady"
  by (auto simp: updateSessionCode_def Let_def installDependencies_def updatePubspec_def hotReload_def
      split: option.splits prod.splits sum.splits if_splits)

lemma updateSessionCode_touches:
  "map_of (sessions m) sid = Some s \<Longrightarrow>
   map_of (sessions (snd (updateSessionCode sid prompt env m))) sid = Some (s\<lparr>lastActive := now env\<rparr>)"
  by (auto simp: updateSessionCode_def Let_def hotReload_def lookup_updSession
      split: option.splits prod.splits)

text \<open>
  C8, amended. \<^verbatim>\<open>updateSessionCode\<close> fails with \<open>NotFound\<close> for an id that is not
  in the map and leaves the whole state as it is. It never fails with \<open>NotReady\<close>: it
  does not look at the status (setting the status to any value before the call changes
  neither the result nor anything of the final state but that status), and for an id
  that is in the map, whatever the status, it sets \<^verbatim>\<open>lastActive\<close> to the current
  time. Of the two handlers of \<^verbatim>\<open>POST /:sessionId/code\<close>, both of which answer a
  prompt of less than 5 or more than 2000 characters with \<open>InvalidRequest\<close> before any
  lookup, and for a prompt of 5 to 2000 characters: the one that calls
  \<^verbatim>\<open>updateSessionCode\<close> (\<^verbatim>\<open>src/unnamed/part_010\<close>) answers \<open>NotFound\<close> for an
  unknown id, changing nothing, and \<open>NotReady\<close> for a session whose status is not
  \<^verbatim>\<open>'ready'\<close>, and then the state differs from the one before only in
  \<^verbatim>\<open>lastActive\<close> of that session, which the lookup through \<^verbatim>\<open>getSession\<close> has set
  to the current time (files, ports, processes and all other session fields are
  unchanged); the one of \<^verbatim>\<open>routes/sessions.ts\<close>, which \<^verbatim>\<open>index.ts\<close> mounts,
  answers \<open>NotFound\<close> for an unknown id, changing nothing, and has no test of the
  status: after the same lookup, which sets \<^verbatim>\<open>lastActive\<close>, it passes the request
  to the multi-agent service whatever the status is.
\<close>

theorem updateCode_rejections:
  "(map_of (sessions m) sid = None \<longrightarrow>
      updateSessionCode sid prompt env m = (Inl NotFound, m) \<and>
      (5 \<le> length prompt \<and> length prompt \<le> 2000 \<longrightarrow>
         postSessionCode sid prompt env m = (Inl NotFound, m) \<and>
         postSessionCodeMultiAgent sid prompt env m = (Inl NotFound, m))) \<and>
   fst (updateSessionCode sid prompt env m) \<noteq> Inl NotReady \<and>
   updateSessionCode sid prompt env (updSession sid (\<lambda>s. s\<lparr>status := st\<rparr>) m) =
     (fst (updateSessionCode sid prompt env m),
      updSession sid (\<lambda>s. s\<lparr>status := st\<rparr>) (snd (updateSessionCode sid prompt env m))) \<and>
   (map_of (sessions m) sid = Some s \<longrightarrow>
      map_of (sessions (snd (updateSessionCode sid prompt env m))) sid
        = Some (s\<lparr>lastActive := now env\<rparr>)) \<and>
   (length prompt < 5 \<or> 2000 < length prompt \<longrightarrow>
      postSessionCode sid prompt env m = (Inl InvalidRequest, m) \<and>
      postSessionCodeMultiAgent sid prompt env m = (Inl InvalidRequest, m)) \<and>
   (map_of (sessions m) sid = Some s \<and> status s \<noteq> Ready \<and>
    5 \<le> length prompt \<and> length prompt \<le> 2000 \<longrightarrow>
      postSessionCode sid prompt env m
        = (Inl NotReady, updSession sid (\<lambda>s. s\<lparr>lastActive := now env\<rparr>) m)) \<and>
   (map_of (sessions m) sid = Some s \<and> 5 \<le> length prompt \<and> length prompt \<le> 2000 \<longrightarrow>
      postSessionCodeMultiAgent sid prompt env m
        = (Inr (s\<lparr>lastActive := now env\<rparr>), updSession sid (\<lambda>s. s\<lparr>lastActive := now env\<rparr>) m))"
proof -
  have 1: "map_of (sessions m) sid = None \<longrightarrow>
      updateSessionCode sid prompt env m = (Inl NotFound, m) \<and>
      (5 \<le> length prompt \<and> length prompt \<le> 2000 \<longrightarrow>
         postSessionCode sid prompt env m = (Inl NotFound, m) \<and>
         postSessionCodeMultiAgent sid prompt env m = (Inl NotFound, m))"
    by (auto simp: updateSessionCode_def postSessionCode_def postSessionCodeMultiAgent_def getSession_def)
  have 2: "length prompt < 5 \<or> 2000 < length prompt \<longrightarrow>
      postSessionCode sid prompt env m = (Inl InvalidRequest, m) \<and>
      postSessionCodeMultiAgent sid prompt env m = (Inl InvalidRequest, m)"
    by (auto simp: postSessionCode_def postSessionCodeMultiAgent_def)
  have 3: "map_of (sessions m) sid = Some s \<and> status s \<noteq> Ready \<and>
    5 \<le> length prompt \<and> length prompt \<le> 2000 \<longrightarrow>
      postSessionCode sid prompt env m
        = (Inl NotReady, updSession sid (\<lambda>s. s\<lparr>lastActive := now env\<rparr>) m)"
    by (auto simp: postSessionCode_def getSession_def)
  have 4: "map_of (sessions m) sid = Some s \<and> 5 \<le> length prompt \<and> length prompt \<le> 2000 \<longrightarrow>
      postSessionCodeMultiAgent sid prompt env m
        = (Inr (s\<lparr>lastActive := now env\<rparr>), updSession sid (\<lambda>s. s\<lparr>lastActive := now env\<rparr>) m)"
    by (auto simp: postSessionCodeMultiAgent_def getSession_def)
  from 1 2 3 4 updateSessionCode_never_NotReady[of sid prompt env m]
    updateSessionCode_status_blind[of sid prompt env st m]
    updateSessionCode_touches[of m sid s prompt env]
  show ?thesis by blast
qed

theorem updateCode_rejections_witness:
  "map_of (sessions stoppedManager) ''b'' = None \<and>
   updateSessionCode ''b'' ''add a button'' updateEnv stoppedManager = (Inl NotFound, stoppedManager) \<and>
   postSessionCode ''b'' ''add a button'' updateEnv stoppedManager = (Inl NotFound, stoppedManager) \<and>
   postSessionCodeMultiAgent ''b'' ''add a button'' updateEnv stoppedManager = (Inl NotFound, stoppedManager) \<and>
   map_of (sessions stoppedManager) ''a'' = Some (sessionA\<lparr>status := Terminated\<rparr>) \<and>
   fst (updateSessionCode ''a'' ''add a button'' updateEnv stoppedManager) \<noteq> Inl NotReady \<and>
   map_of (sessions (snd (updateSessionCode ''a'' ''add a button'' updateEnv stoppedManager))) ''a''
     = Some (sessionA\<lparr>status := Terminated, lastActive := 2000\<rparr>) \<and>
   postSessionCode ''a'' ''add a button'' updateEnv stoppedManager
     = (Inl NotReady, updSession ''a'' (\<lambda>s. s\<lparr>lastActive := 2000\<rparr>) stoppedManager) \<and>
   postSessionCodeMultiAgent ''a'' ''add a button'' updateEnv stoppedManager
     = (Inr (sessionA\<lparr>status := Terminated, lastActive := 2000\<rparr>),
        updSession ''a'' (\<lambda>s. s\<lparr>lastActive := 2000\<rparr>) stoppedManager) \<and>
   length ''add'' < 5 \<and>
   postSessionCode ''a'' ''add'' updateEnv stoppedManager = (Inl InvalidRequest, stoppedManager) \<and>
   postSessionCodeMultiAgent ''a'' ''add'' updateEnv stoppedManager = (Inl InvalidRequest, stoppedManager)"
proof -
  have b: "map_of (sessions stoppedManager) ''b'' = None" by (simp add: stopped_sessions)
  have a: "map_of (sessions stoppedManager) ''a'' = Some (sessionA\<lparr>status := Terminated\<rparr>)"
    by (simp add: stopped_sessions)
  have st: "status (sessionA\<lparr>status := Terminated\<rparr>) \<noteq> Ready" by simp
  have l: "5 \<le> length ''add a button''" "length ''add a button'' \<le> 2000" "length ''add'' < 5"
    by simp_all
  have n: "now updateEnv = 2000" by (simp add: updateEnv_def)
  note B = updateCode_rejections[of stoppedManager "''b''" "''add a button''" updateEnv]
  note A = updateCode_rejections[of stoppedManager "''a''" "''add a button''" updateEnv Ready "sessionA\<lparr>status := Terminated\<rparr>"]
  note C = updateCode_rejections[of stoppedManager "''a''" "''add''" updateEnv]
  from A B C a b st l show ?thesis unfolding n by blast
qed

section \<open>Properties of the orchestrator\<close>

lemma findIndex_Some:
  "findIndex P xs = Some j \<Longrightarrow> j < length xs \<and> P (xs ! j) \<and> (\<forall>k<j. \<not> P (xs ! k))"
proof (induction xs arbitrary: j)
  case Nil
  then show ?case by simp
next
  case (Cons x xs)
  show ?case
  proof (cases "P x")
    case True
    then show ?thesis using Cons.prems by simp
  next
    case False
    then obtain j' where j': "findIndex P xs = Some j'" "j = Suc j'"
      using Cons.prems by auto
    from Cons.IH[OF j'(1)] False j'(2) show ?thesis
      by (auto simp: nth_Cons split: nat.splits)
  qed
qed

lemma findIndex_None: "findIndex P xs = None \<Longrightarrow> \<forall>x \<in> set xs. \<not> P x"
  by (induction xs) (auto split: if_splits)

lemma findIndex_le:
  "k < length xs \<Longrightarrow> P (xs ! k) \<Longrightarrow> \<exists>j \<le> k. findIndex P xs = Some j"
proof -
  assume a: "k < length xs" "P (xs ! k)"
  show ?thesis
  proof (cases "findIndex P xs")
    case None
    from findIndex_None[OF this] a show ?thesis by auto
  next
    case (Some j)
    from findIndex_Some[OF this] a have "j \<le> k" by (meson not_le_imp_less)
    with Some show ?thesis by simp
  qed
qed

lemma findPlan_first: "findPlan ps d = Some j \<Longrightarrow> firstOfId ps j \<and> planId (ps ! j) = d \<and> j < length ps"
  unfolding findPlan_def firstOfId_def using findIndex_Some[of "\<lambda>p. planId p = d" ps j]
  by (auto simp: findPlan_def)

lemma isCycle_succ:
  assumes "isCycle ps cyc" "c \<in> set cyc"
  shows "\<exists>d \<in> set cyc. dependsOn ps c d"
proof -
  from assms(2) obtain k where k: "k < length cyc" "cyc ! k = c" by (auto simp: in_set_conv_nth)
  from assms(1) k(1) have "dependsOn ps (cyc ! k) (cyc ! ((k + 1) mod length cyc))"
    by (auto simp: isCycle_def list_all_iff)
  moreover have "(k + 1) mod length cyc < length cyc" using k(1) by (intro mod_less_divisor) auto
  then have "cyc ! ((k + 1) mod length cyc) \<in> set cyc" by (rule nth_mem)
  ultimately show ?thesis using k(2) by blast
qed

lemma isCycle_pred:
  assumes "isCycle ps cyc" "c \<in> set cyc"
  shows "\<exists>b \<in> set cyc. dependsOn ps b c"
proof -
  from assms(2) obtain k where k: "k < length cyc" "cyc ! k = c" by (auto simp: in_set_conv_nth)
  define j where "j = (if k = 0 then length cyc - 1 else k - 1)"
  have j: "j < length cyc" using k(1) unfolding j_def by (cases "k = 0") auto
  have "(j + 1) mod length cyc = k"
  proof (cases "k = 0")
    case True
    then have "j + 1 = length cyc" using k(1) by (simp add: j_def)
    then show ?thesis using True by simp
  next
    case False
    then have "j + 1 = k" by (simp add: j_def)
    then show ?thesis using k(1) by simp
  qed
  moreover from assms(1) j have "dependsOn ps (cyc ! j) (cyc ! ((j + 1) mod length cyc))"
    by (simp add: isCycle_def list_all_iff)
  ultimately have "dependsOn ps (cyc ! j) c" using k(2) by simp
  moreover have "cyc ! j \<in> set cyc" using j by (rule nth_mem)
  ultimately show ?thesis by blast
qed

lemma dependsOn_D:
  "dependsOn ps i j \<Longrightarrow> \<exists>d \<in> set (planDependencies (ps ! i)). findPlan ps d = Some j"
  by (auto simp: dependsOn_def list_ex_iff)

lemma forEach_invariant:
  assumes step: "\<And>x s s'. x \<in> set xs \<Longrightarrow> I s \<Longrightarrow> f x s = Some s' \<Longrightarrow> I s' \<and> processed s \<subseteq> processed s' \<and> Q x s'"
    and mono: "\<And>x s s'. Q x s \<Longrightarrow> processed s \<subseteq> processed s' \<Longrightarrow> Q x s'"
    and "I s" "forEach f xs s = Some s'"
  shows "I s' \<and> processed s \<subseteq> processed s' \<and> (\<forall>x \<in> set xs. Q x s')"
  using assms
proof (induction xs arbitrary: s)
  case Nil
  then show ?case by simp
next
  case (Cons x xs)
  from Cons.prems(4) obtain s1 where s1: "f x s = Some s1" "forEach f xs s1 = Some s'"
    by (auto simp: bind_eq_Some_conv)
  from Cons.prems(1)[OF _ Cons.prems(3) s1(1)]
  have a: "I s1" "processed s \<subseteq> processed s1" "Q x s1" by simp_all
  have "I s' \<and> processed s1 \<subseteq> processed s' \<and> (\<forall>x \<in> set xs. Q x s')"
    by (rule Cons.IH[OF _ Cons.prems(2) a(1) s1(2)]) (use Cons.prems(1) in auto)
  with a Cons.prems(2)[OF a(3)] show ?case by auto
qed

lemma addPlan_cycle_inv:
  assumes cyc: "isCycle ps cyc"
    and res: "addPlan ps i st = Some st'"
    and first: "firstOfId ps i" and inv: "cycleUntouched ps cyc st"
  shows "cycleUntouched ps cyc st' \<and> processed st \<subseteq> processed st' \<and> planId (ps ! i) \<in> processed st'"
proof -
  let ?P = "\<lambda>ps0 i st st'. ps0 = ps \<longrightarrow> firstOfId ps i \<longrightarrow> cycleUntouched ps cyc st \<longrightarrow>
        cycleUntouched ps cyc st' \<and> processed st \<subseteq> processed st' \<and> planId (ps ! i) \<in> processed st'"
  have "?P ps i st st'"
  proof (rule addPlan.raw_induct[where P = ?P, OF _ res], goal_cases)
    case (1 f ps0 i st st')
    note IH = "1"(1) and hyps = "1"(2)
    show ?case
    proof (intro impI)
      assume p0: "ps0 = ps" and fi: "firstOfId ps i" and inv: "cycleUntouched ps cyc st"
      show "cycleUntouched ps cyc st' \<and> processed st \<subseteq> processed st' \<and> planId (ps ! i) \<in> processed st'"
      proof (cases "planId (ps ! i) \<in> processed st")
        case True
        then show ?thesis using hyps inv p0 by simp
      next
        case False
        let ?g = "\<lambda>depId st'. case findPlan ps depId of
                           Some j \<Rightarrow> if depId \<notin> processed st' then f ps j st' else Some st'
                         | None \<Rightarrow> Some st'"
        from hyps False p0 obtain st1 where
          loop: "forEach ?g (planDependencies (ps ! i)) st = Some st1"
          and st': "st' = st1\<lparr>sortedSoFar := sortedSoFar st1 @ [i],
                              processed := insert (planId (ps ! i)) (processed st1)\<rparr>"
          by (auto simp: bind_eq_Some_conv)
        have loopinv: "cycleUntouched ps cyc st1 \<and> processed st \<subseteq> processed st1 \<and>
              (\<forall>d \<in> set (planDependencies (ps ! i)). (\<forall>j. findPlan ps d = Some j \<longrightarrow> d \<in> processed st1))"
        proof (rule forEach_invariant[where f = ?g and I = "cycleUntouched ps cyc"
              and Q = "\<lambda>d s. \<forall>j. findPlan ps d = Some j \<longrightarrow> d \<in> processed s", OF _ _ inv loop])
          fix d s s'
          assume d: "d \<in> set (planDependencies (ps ! i))" and I: "cycleUntouched ps cyc s"
            and g: "?g d s = Some s'"
          show "cycleUntouched ps cyc s' \<and> processed s \<subseteq> processed s' \<and>
                (\<forall>j. findPlan ps d = Some j \<longrightarrow> d \<in> processed s')"
          proof (cases "findPlan ps d")
            case None
            then show ?thesis using g I by simp
          next
            case (Some j)
            show ?thesis
            proof (cases "d \<in> processed s")
              case True
              then show ?thesis using g I Some by simp
            next
              case False
              then have "f ps j s = Some s'" using g Some by simp
              from IH[OF this] findPlan_first[OF Some] I
              show ?thesis using Some by auto
            qed
          qed
        next
          fix d s s'
          assume "\<forall>j. findPlan ps d = Some j \<longrightarrow> d \<in> processed s" "processed s \<subseteq> processed s'"
          then show "\<forall>j. findPlan ps d = Some j \<longrightarrow> d \<in> processed s'" by auto
        qed
        have notin: "i \<notin> set cyc"
        proof
          assume "i \<in> set cyc"
          from isCycle_succ[OF cyc this] obtain c where c: "c \<in> set cyc" "dependsOn ps i c" by blast
          from dependsOn_D[OF c(2)] obtain d where d: "d \<in> set (planDependencies (ps ! i))"
            "findPlan ps d = Some c" by blast
          from loopinv d have "d \<in> processed st1" by blast
          moreover have "planId (ps ! c) = d" using findPlan_first[OF d(2)] by simp
          ultimately show False using loopinv c(1) by (auto simp: cycleUntouched_def)
        qed
        have "cycleUntouched ps cyc st'"
          unfolding cycleUntouched_def
        proof
          fix c assume c: "c \<in> set cyc"
          from isCycle_pred[OF cyc c] obtain b where "dependsOn ps b c" by blast
          from dependsOn_D[OF this] obtain d where "findPlan ps d = Some c" by blast
          from findPlan_first[OF this] have fc: "firstOfId ps c" by simp
          have "planId (ps ! c) \<noteq> planId (ps ! i)"
          proof
            assume "planId (ps ! c) = planId (ps ! i)"
            with fc fi have "c = i" by (simp add: firstOfId_def)
            with c notin show False by simp
          qed
          moreover have "planId (ps ! c) \<notin> processed st1"
            using loopinv c by (auto simp: cycleUntouched_def)
          ultimately show "planId (ps ! c) \<notin> processed st'" by (simp add: st')
        qed
        moreover have "processed st \<subseteq> processed st'" using loopinv by (auto simp: st')
        moreover have "planId (ps ! i) \<in> processed st'" by (simp add: st')
        ultimately show ?thesis by blast
      qed
    qed
  qed
  with first inv show ?thesis by simp
qed

lemma addPlan_processed: "planId (ps ! i) \<in> processed st \<Longrightarrow> addPlan ps i st = Some st"
  by (subst addPlan.simps) simp

lemma isCycle_first:
  assumes "isCycle ps cyc" "c \<in> set cyc"
  shows "firstOfId ps c \<and> c < length ps"
proof -
  from isCycle_pred[OF assms] obtain b where "dependsOn ps b c" by blast
  from dependsOn_D[OF this] obtain d where "findPlan ps d = Some c" by blast
  from findPlan_first[OF this] show ?thesis by simp
qed

lemma top_loop_cycle:
  assumes cyc: "isCycle ps cyc"
  shows "k \<le> n \<Longrightarrow> n \<le> length ps \<Longrightarrow> cycleUntouched ps cyc s \<Longrightarrow>
         (\<forall>i<k. planId (ps ! i) \<in> processed s) \<Longrightarrow>
         forEach (addPlan ps) [k..<n] s = Some s' \<Longrightarrow>
         cycleUntouched ps cyc s' \<and> (\<forall>i<n. planId (ps ! i) \<in> processed s')"
proof (induction "n - k" arbitrary: k s)
  case 0
  then show ?case by simp
next
  case (Suc m)
  then have kn: "k < n" by simp
  then have upt: "[k..<n] = k # [Suc k..<n]" by (simp add: upt_conv_Cons)
  from Suc.prems(5) obtain s1 where s1: "addPlan ps k s = Some s1"
    "forEach (addPlan ps) [Suc k..<n] s1 = Some s'"
    unfolding upt by (auto simp: bind_eq_Some_conv)
  have J: "cycleUntouched ps cyc s1 \<and> processed s \<subseteq> processed s1 \<and> planId (ps ! k) \<in> processed s1"
  proof (cases "firstOfId ps k")
    case True
    from addPlan_cycle_inv[OF cyc s1(1) True Suc.prems(3)] show ?thesis .
  next
    case False
    have "k < length ps" using kn Suc.prems(2) by simp
    from findIndex_le[of k ps "\<lambda>p. planId p = planId (ps ! k)", OF this]
    obtain j where j: "j \<le> k" "findPlan ps (planId (ps ! k)) = Some j"
      by (auto simp: findPlan_def)
    with False have "j < k" by (auto simp: firstOfId_def le_less)
    moreover have "planId (ps ! j) = planId (ps ! k)" using findPlan_first[OF j(2)] by simp
    ultimately have "planId (ps ! k) \<in> processed s" using Suc.prems(4) by metis
    with addPlan_processed[OF this] s1(1) Suc.prems(3) show ?thesis by simp
  qed
  have "\<forall>i<Suc k. planId (ps ! i) \<in> processed s1"
    using J Suc.prems(4) by (auto simp: less_Suc_eq)
  moreover have "m = n - Suc k" using Suc.hyps(2) by simp
  ultimately show ?case
    using Suc.hyps(1)[of "Suc k" s1] kn Suc.prems(2) J s1(2) by simp
qed

lemma sort_diverges_on_cycle:
  assumes "isCycle ps cyc"
  shows "sortPlansByDependencies ps = None"
proof (rule ccontr)
  assume "sortPlansByDependencies ps \<noteq> None"
  then obtain s' where s': "forEach (addPlan ps) [0..<length ps] \<lparr>sortedSoFar = [], processed = {}\<rparr> = Some s'"
    by (auto simp: sortPlansByDependencies_def)
  have "cycleUntouched ps cyc \<lparr>sortedSoFar = [], processed = {}\<rparr>" by (simp add: cycleUntouched_def)
  from top_loop_cycle[OF assms _ _ this _ s']
  have r: "cycleUntouched ps cyc s'" "\<forall>i<length ps. planId (ps ! i) \<in> processed s'" by simp_all
  from assms obtain c where c: "c \<in> set cyc" by (cases cyc) (auto simp: isCycle_def)
  from isCycle_first[OF assms c] r(2) have "planId (ps ! c) \<in> processed s'" by simp
  with r(1) c show False by (simp add: cycleUntouched_def)
qed


lemma setPlan_frame [simp]:
  "currentPhase (setPlan i f st) = currentPhase st"
  "finalResult (setPlan i f st) = finalResult st"
  "userPrompt (setPlan i f st) = userPrompt st"
  "length (plans (setPlan i f st)) = length (plans st)"
  by (simp_all add: setPlan_def)







lemma buildApplication_planned:
  assumes "planning world = Response (Some ps)"
  shows "buildApplication prompt world st =
     (case executeReWOOPlan world (started prompt ps st) of
        (Inl thrown, st2) \<Rightarrow> (Inl thrown, st2)
      | (Inr executionResult, st2) \<Rightarrow>
          if \<not> success executionResult then (Inr executionResult, st2)
          else integrateResults (st2\<lparr>currentPhase := IntegrationPhase\<rparr>))"
proof -
  have eq: "st\<lparr>currentPhase := PlanningPhase, plans := resetPlans ps,
               userPrompt := Some prompt, currentPhase := ExecutionPhase\<rparr> = started prompt ps st"
    by (simp add: started_def)
  show ?thesis
    using assms unfolding buildApplication_def createExecutionPlan_def Let_def
    by (simp add: eq del: OrchestratorState.update_convs)
qed





lemmas orch_eval = buildApplication_def createExecutionPlan_def resetPlans_def executeReWOOPlan_def
  executionOk_def integrationOk_def
  sortPlansByDependencies_def addPlan.simps findPlan_def executePlan_def sendMessage_def
  registeredAgents_def getAgentAction_def buildAgentPayload_def setPlan_def showOptional_def
  integrateResults_def orNull_def getResultByType_def failure_def Let_def mk_def replyOk_def
  initialState_def processMessage_def




text \<open>
  C9, as stated, fails on a planning answer with an empty list of plans: the empty array
  passes \<^verbatim>\<open>if (planningResponse.plans)\<close>, planning succeeds, no task executes and the
  run completes with an artifact whose slots are empty.
\<close>

theorem empty_plan_counterexample:
  "planning emptyPlanWorld = Response (Some []) \<and>
   fst (createExecutionPlan ''todo app'' emptyPlanWorld initialState)
     = \<lparr>success = True, resultData = Some (PlanningData []), errorMessage = None,
        nextSteps = None, confidence = 90\<rparr> \<and>
   buildApplication ''todo app'' emptyPlanWorld initialState
     = (Inr (integrationOk (emptyArtifact ''todo app'')),
        \<lparr>currentPhase = CompletionPhase, plans = [], userPrompt = Some ''todo app'',
         finalResult = Some (emptyArtifact ''todo app'')\<rparr>)"
  by (simp add: emptyPlanWorld_def orch_eval integrationOk_def emptyArtifact_def)

text \<open>
  C9, amended. A planning call that throws, or an answer without a list of plans, is a
  planning failure: \<^verbatim>\<open>buildApplication\<close> returns the failure and no task executes (only
  the phase is set, to \<^verbatim>\<open>'planning'\<close>). An answer with an empty list of plans is
  accepted: planning succeeds, no task executes, and the run completes with the artifact
  whose design, code and tests slots are empty.
\<close>

theorem planning_failure_or_empty_plan:
  "((planning world = CallFails \<or> planning world = Response None) \<longrightarrow>
      buildApplication prompt world st
        = (Inr (failure ''Failed to create execution plan''), st\<lparr>currentPhase := PlanningPhase\<rparr>)) \<and>
   (planning world = Response (Some []) \<longrightarrow>
      buildApplication prompt world st
        = (Inr (integrationOk (emptyArtifact prompt)),
           st\<lparr>currentPhase := CompletionPhase, plans := [], userPrompt := Some prompt,
              finalResult := Some (emptyArtifact prompt)\<rparr>))"
  by (auto simp: buildApplication_def createExecutionPlan_def resetPlans_def failure_def
      executeReWOOPlan_def sortPlansByDependencies_def executionOk_def integrateResults_def
      getResultByType_def orNull_def integrationOk_def emptyArtifact_def Let_def)

theorem planning_failure_or_empty_plan_witness:
  "planning noAnswerWorld = Response None \<and>
   buildApplication ''todo app'' noAnswerWorld initialState
     = (Inr (failure ''Failed to create execution plan''), initialState) \<and>
   planning emptyPlanWorld = Response (Some []) \<and>
   fst (buildApplication ''todo app'' emptyPlanWorld initialState)
     = Inr (integrationOk (emptyArtifact ''todo app'')) \<and>
   currentPhase (snd (buildApplication ''todo app'' emptyPlanWorld initialState)) = CompletionPhase"
proof -
  have 1: "planning noAnswerWorld = Response None" by (simp add: noAnswerWorld_def)
  have 2: "planning emptyPlanWorld = Response (Some [])" by (simp add: emptyPlanWorld_def)
  have 3: "initialState\<lparr>currentPhase := PlanningPhase\<rparr> = initialState" by (simp add: initialState_def)
  note A = planning_failure_or_empty_plan[of noAnswerWorld "''todo app''" initialState]
  note B = planning_failure_or_empty_plan[of emptyPlanWorld "''todo app''" initialState]
  from A 1 3 have a: "buildApplication ''todo app'' noAnswerWorld initialState
     = (Inr (failure ''Failed to create execution plan''), initialState)" by simp
  from B 2 have b: "buildApplication ''todo app'' emptyPlanWorld initialState
        = (Inr (integrationOk (emptyArtifact ''todo app'')),
           initialState\<lparr>currentPhase := CompletionPhase, plans := [], userPrompt := Some ''todo app'',
              finalResult := Some (emptyArtifact ''todo app'')\<rparr>)" by blast
  from 1 2 a b show ?thesis by simp
qed

lemma findPlan_reset: "findPlan (resetPlans ps) d = findPlan ps d"
  unfolding findPlan_def resetPlans_def by (induction ps) auto

lemma isCycle_reset:
  assumes "isCycle ps cyc"
  shows "isCycle (resetPlans ps) cyc"
proof -
  have v: "c < length ps" if "c \<in> set cyc" for c using isCycle_first[OF assms that] by simp
  have d: "dependsOn (resetPlans ps) c j = dependsOn ps c j" if "c \<in> set cyc" for c j
    using v[OF that] by (simp add: dependsOn_def findPlan_reset) (simp add: resetPlans_def)
  have "dependsOn (resetPlans ps) (cyc ! k) (cyc ! ((k + 1) mod length cyc))"
    if "k < length cyc" for k
  proof -
    have "dependsOn ps (cyc ! k) (cyc ! ((k + 1) mod length cyc))"
      using assms that by (auto simp: isCycle_def list_all_iff)
    then show ?thesis using d[of "cyc ! k"] that by simp
  qed
  then show ?thesis using assms by (auto simp: isCycle_def list_all_iff)
qed

lemma cyclic_run:
  assumes "planning world = Response (Some ps)" "isCycle ps cyc"
  shows "sortPlansByDependencies (resetPlans ps) = None \<and>
         buildApplication prompt world st
           = (Inl ''Maximum call stack size exceeded'', started prompt ps st) \<and>
         processMessage (BuildApp prompt) world st
           = (failure ''Maximum call stack size exceeded'', started prompt ps st) \<and>
         (\<forall>p \<in> set (plans (started prompt ps st)). planStatus p = Pending)"
proof -
  have 1: "sortPlansByDependencies (resetPlans ps) = None"
    by (rule sort_diverges_on_cycle[OF isCycle_reset[OF assms(2)]])
  have pl: "plans (started prompt ps st) = resetPlans ps" by (simp add: started_def)
  have 2: "buildApplication prompt world st
           = (Inl ''Maximum call stack size exceeded'', started prompt ps st)"
    using 1 pl by (simp add: buildApplication_planned[OF assms(1)] executeReWOOPlan_def)
  have 3: "processMessage (BuildApp prompt) world st
           = (failure ''Maximum call stack size exceeded'', started prompt ps st)"
    by (simp add: processMessage_def 2)
  have 4: "\<forall>p \<in> set (plans (started prompt ps st)). planStatus p = Pending"
    by (simp add: pl resetPlans_def)
  from 1 2 3 4 show ?thesis by blast
qed

lemma cyclicPlans_cycle: "isCycle cyclicPlans [0, 1]"
  by (simp add: isCycle_def dependsOn_def findPlan_def cyclicPlans_def mk_def upt_rec)

lemma cyclicPlans_reset: "resetPlans cyclicPlans = cyclicPlans"
  by (simp add: resetPlans_def cyclicPlans_def mk_def)

text \<open>
  C3, as stated, fails on two plans that depend on each other: computing the order
  never returns, and what the caller gets is the stack-overflow error of the runtime, not
  a cycle error.
\<close>

theorem cycle_not_detected_counterexample:
  "isCycle cyclicPlans [0, 1] \<and>
   sortPlansByDependencies cyclicPlans = None \<and>
   fst (processMessage (BuildApp ''todo app'') cyclicWorld initialState)
     = failure ''Maximum call stack size exceeded''"
proof -
  have p: "planning cyclicWorld = Response (Some cyclicPlans)" by (simp add: cyclicWorld_def)
  from cyclic_run[OF p cyclicPlans_cycle, of "''todo app''" initialState] cyclicPlans_cycle
  show ?thesis by (simp add: cyclicPlans_reset)
qed

text \<open>
  C3, amended. For every planning answer whose plans contain a dependency cycle,
  \<^verbatim>\<open>sortPlansByDependencies\<close> has no marker for plans in progress and never returns an
  order; the run ends with the stack-overflow error of the runtime, which
  \<^verbatim>\<open>processMessage\<close> returns as a failed result. This happens before the execution
  loop: the state is the one in which execution was entered, no task has executed and
  every task is pending, so none has become in-progress.
\<close>

theorem cyclic_plans_overflow:
  assumes "planning world = Response (Some ps)" "isCycle ps cyc"
  shows "sortPlansByDependencies (resetPlans ps) = None \<and>
         buildApplication prompt world st
           = (Inl ''Maximum call stack size exceeded'', started prompt ps st) \<and>
         processMessage (BuildApp prompt) world st
           = (failure ''Maximum call stack size exceeded'', started prompt ps st) \<and>
         (\<forall>p \<in> set (plans (started prompt ps st)). planStatus p = Pending)"
  using assms by (rule cyclic_run)

theorem cyclic_plans_overflow_witness:
  "planning cyclicWorld = Response (Some cyclicPlans) \<and> isCycle cyclicPlans [0, 1] \<and>
   buildApplication ''todo app'' cyclicWorld initialState
     = (Inl ''Maximum call stack size exceeded'', started ''todo app'' cyclicPlans initialState) \<and>
   map planStatus (plans (started ''todo app'' cyclicPlans initialState)) = [Pending, Pending]"
proof -
  have p: "planning cyclicWorld = Response (Some cyclicPlans)" by (simp add: cyclicWorld_def)
  have s: "map planStatus (plans (started ''todo app'' cyclicPlans initialState)) = [Pending, Pending]"
    by (simp add: started_def resetPlans_def cyclicPlans_def mk_def)
  from cyclic_plans_overflow[OF p cyclicPlans_cycle, of "''todo app''" initialState] p cyclicPlans_cycle s
  show ?thesis by simp
qed

end
